theory Spec2Isabelle
  imports Complex_Main "HOL-Library.Word"
begin

unbundle bit_operations_syntax

section \<open>Bank-statement import of meudinheiro\<close>

text \<open>
  The development embeds the bank-statement pipeline of the repository:

  \<^item> the statement parser with balance records (\<open>computeImportHash\<close>, \<open>parseDate\<close>,
    \<open>parseAmountToCents\<close>, \<open>parseCsv\<close>, \<open>parseOfx\<close>), in the revision that declares
    \<open>ParsedBalance\<close> and \<open>ParsedBankStatement\<close>. Its text is the second document of
    \<open>src/src/firebase/firestore.ts\<close> (lines 260 to 651). The file
    \<open>src/src/utils/bankStatementParser.ts\<close> holds two earlier revisions of the same module
    (lines 1 to 332 and 333 to 598); where they differ from the embedded one the text says so.
  \<^item> the reconciler \<open>importLedgerEntries\<close> of \<open>src/unnamed/part_003\<close> (lines 275 to 331),
    which imports \<open>ParsedBalance\<close> from the parser and therefore belongs to the same revision.

  JavaScript strings are sequences of UTF-16 code units, numbers are IEEE doubles with
  their special values, and everything the host supplies (the \<open>Date\<close> constructor, Unicode
  case mapping and normalisation, the time) is a parameter of the functions that use it.
\<close>

subsection \<open>Strings\<close>

type_synonym cu = "16 word"
type_synonym jsstring = "cu list"

definition js :: "string \<Rightarrow> jsstring" where
  \<comment> \<open>an ASCII literal as code units\<close>
  "js s = map (\<lambda>c. of_nat (of_char c)) s"

definition isWs :: "cu \<Rightarrow> bool" where
  \<comment> \<open>WhiteSpace and LineTerminator of ECMAScript: what \<open>trim\<close> strips and \<open>\s\<close> matches\<close>
  "isWs c \<longleftrightarrow> c \<in> {0x09, 0x0A, 0x0B, 0x0C, 0x0D, 0x20, 0xA0, 0x1680,
     0x2000, 0x2001, 0x2002, 0x2003, 0x2004, 0x2005, 0x2006, 0x2007, 0x2008, 0x2009, 0x200A,
     0x2028, 0x2029, 0x202F, 0x205F, 0x3000, 0xFEFF}"

definition trim :: "jsstring \<Rightarrow> jsstring" where
  "trim s = rev (dropWhile isWs (rev (dropWhile isWs s)))"

definition jsSlice :: "nat \<Rightarrow> nat \<Rightarrow> 'a list \<Rightarrow> 'a list" where
  \<comment> \<open>\<open>xs.slice(i, j)\<close> for \<open>0 \<le> i\<close> and \<open>0 \<le> j\<close>; out-of-range bounds are clipped\<close>
  "jsSlice i j xs = take (j - i) (drop i xs)"

subsection \<open>Numbers\<close>

text \<open>
  A JavaScript number is a double: a finite value (a dyadic rational), an infinity or NaN.
  The two zeros are one value here: the code below never tells them apart (\<open>-0 === 0\<close>,
  \<open>-0 >= 0\<close>, \<open>Math.abs(-0)\<close> is \<open>0\<close> and \<open>String(-0)\<close> is \<open>"0"\<close>).
\<close>

datatype jsnum = Fin rat | PInf | NInf | NaN

definition pow2 :: "int \<Rightarrow> rat" where
  "pow2 e = (if 0 \<le> e then 2 ^ nat e else 1 / 2 ^ nat (- e))"

fun ilog2 :: "nat \<Rightarrow> nat" where
  \<comment> \<open>the floor of the binary logarithm of \<open>n \<ge> 1\<close>\<close>
  "ilog2 n = (if n < 2 then 0 else Suc (ilog2 (n div 2)))"

declare ilog2.simps [simp del]

definition floorLog2 :: "rat \<Rightarrow> int" where
  \<comment> \<open>the floor of the binary logarithm of \<open>a > 0\<close>\<close>
  "floorLog2 a = (if 1 \<le> a then int (ilog2 (nat \<lfloor>a\<rfloor>))
                  else - int (ilog2 (nat \<lceil>1 / a\<rceil> - 1)) - 1)"

definition roundHalfEven :: "rat \<Rightarrow> int" where
  "roundHalfEven x =
     (let f = \<lfloor>x\<rfloor>; r = x - of_int f
      in if r < 1 / 2 then f else if 1 / 2 < r then f + 1 else if even f then f else f + 1)"

definition rd :: "rat \<Rightarrow> jsnum" where
  \<comment> \<open>the double nearest to \<open>q\<close>: 53 significant bits, ties to even, subnormals below
      \<open>2^-1022\<close>, an infinity from \<open>2^1024\<close> on\<close>
  "rd q =
     (if q = 0 then Fin 0
      else
        (let a = \<bar>q\<bar>;
             e = max (floorLog2 a) (- 1022);
             u = pow2 (e - 52);
             v = of_int (roundHalfEven (a / u)) * u
         in if pow2 1024 \<le> v then (if 0 < q then PInf else NInf)
            else Fin (if 0 < q then v else - v)))"

definition jsSign :: "jsnum \<Rightarrow> int" where
  "jsSign x = (case x of Fin q \<Rightarrow> (if q = 0 then 0 else if 0 < q then 1 else - 1)
                       | PInf \<Rightarrow> 1 | NInf \<Rightarrow> - 1 | NaN \<Rightarrow> 0)"

definition jsMul :: "jsnum \<Rightarrow> jsnum \<Rightarrow> jsnum" where
  \<comment> \<open>\<open>x * y\<close>\<close>
  "jsMul x y =
     (if x = NaN \<or> y = NaN then NaN
      else (case (x, y) of
              (Fin a, Fin b) \<Rightarrow> rd (a * b)
            | _ \<Rightarrow> (let s = jsSign x * jsSign y
                    in if s = 0 then NaN else if 0 < s then PInf else NInf)))"

definition jsNeg :: "jsnum \<Rightarrow> jsnum" where
  \<comment> \<open>\<open>-x\<close>\<close>
  "jsNeg x = (case x of Fin q \<Rightarrow> Fin (- q) | PInf \<Rightarrow> NInf | NInf \<Rightarrow> PInf | NaN \<Rightarrow> NaN)"

definition jsSub :: "jsnum \<Rightarrow> jsnum \<Rightarrow> jsnum" where
  \<comment> \<open>\<open>x - y\<close>: the difference of equal infinities is NaN\<close>
  "jsSub x y =
     (if x = NaN \<or> y = NaN then NaN
      else (case (x, y) of
              (Fin a, Fin b) \<Rightarrow> rd (a - b)
            | (Fin a, _) \<Rightarrow> jsNeg y
            | (_, Fin b) \<Rightarrow> x
            | _ \<Rightarrow> if x = y then NaN else x))"

definition mathAbs :: "jsnum \<Rightarrow> jsnum" where
  \<comment> \<open>\<open>Math.abs(x)\<close>\<close>
  "mathAbs x = (case x of Fin q \<Rightarrow> Fin \<bar>q\<bar> | PInf \<Rightarrow> PInf | NInf \<Rightarrow> PInf | NaN \<Rightarrow> NaN)"

definition mathRound :: "jsnum \<Rightarrow> jsnum" where
  \<comment> \<open>\<open>Math.round(x)\<close>: the nearest integer, a tie going up\<close>
  "mathRound x = (case x of Fin q \<Rightarrow> Fin (of_int \<lfloor>q + 1 / 2\<rfloor>) | _ \<Rightarrow> x)"

definition jsGe0 :: "jsnum \<Rightarrow> bool" where
  \<comment> \<open>\<open>x >= 0\<close>: false for NaN\<close>
  "jsGe0 x = (case x of Fin q \<Rightarrow> 0 \<le> q | PInf \<Rightarrow> True | NInf \<Rightarrow> False | NaN \<Rightarrow> False)"

definition isDigit :: "cu \<Rightarrow> bool" where
  \<comment> \<open>\<open>\d\<close>\<close>
  "isDigit c \<longleftrightarrow> 0x30 \<le> c \<and> c \<le> 0x39"

definition digitsVal :: "jsstring \<Rightarrow> nat" where
  "digitsVal ds = foldl (\<lambda>a c. 10 * a + (unat c - 48)) 0 ds"

definition pow10 :: "int \<Rightarrow> rat" where
  "pow10 e = (if 0 \<le> e then 10 ^ nat e else 1 / 10 ^ nat (- e))"

definition takeSign :: "jsstring \<Rightarrow> bool \<times> jsstring" where
  \<comment> \<open>an optional \<open>+\<close> or \<open>-\<close>\<close>
  "takeSign s = (case s of
                   [] \<Rightarrow> (False, s)
                 | c # r \<Rightarrow> if c = 0x2D then (True, r) else if c = 0x2B then (False, r)
                            else (False, s))"

definition exponentPart :: "jsstring \<Rightarrow> int" where
  \<comment> \<open>\<open>[eE][+-]?\d+\<close> at the start of \<open>s\<close>, else no exponent\<close>
  "exponentPart s =
     (case s of
        [] \<Rightarrow> 0
      | c # r \<Rightarrow>
          if c = 0x65 \<or> c = 0x45 then
            (let (neg, r') = takeSign r; ds = takeWhile isDigit r'
             in if ds = [] then 0
                else if neg then - int (digitsVal ds) else int (digitsVal ds))
          else 0)"

definition parseFloat :: "jsstring \<Rightarrow> jsnum" where
  \<comment> \<open>\<open>parseFloat(s)\<close>: leading white space is skipped, the longest prefix that is a decimal
      literal is read and rounded to a double; NaN when there is none\<close>
  "parseFloat s =
     (let (neg, u) = takeSign (dropWhile isWs s) in
      if take 8 u = js ''Infinity'' then (if neg then NInf else PInf)
      else
        (let ip = takeWhile isDigit u;
             r1 = dropWhile isDigit u;
             dotted = (r1 \<noteq> [] \<and> hd r1 = 0x2E);
             fp = (if dotted then takeWhile isDigit (tl r1) else []);
             r2 = (if dotted then dropWhile isDigit (tl r1) else r1)
         in if ip = [] \<and> fp = [] then NaN
            else
              (let m = of_nat (digitsVal (ip @ fp)) * pow10 (exponentPart r2 - int (length fp))
               in rd (if neg then - m else m))))"

subsection \<open>Data model\<close>

datatype LedgerEntryType = income | expense | transfer

record 'd ParsedTransaction =
  date :: 'd
  description :: jsstring
  details :: "jsstring option"
  documentId :: "jsstring option"
  amountCents :: jsnum
  type :: LedgerEntryType
  importHash :: jsstring

record 'd ParsedBalance =
  b_date :: 'd
  balanceCents :: jsnum
  b_importHash :: jsstring

record 'd ParsedBankStatement =
  transactions :: "'d ParsedTransaction list"
  balances :: "'d ParsedBalance list"

subsection \<open>The host\<close>

text \<open>
  What the JavaScript engine supplies and the repository does not define. \<open>newDate s\<close> is
  \<open>new Date(s)\<close>, \<open>None\<close> standing for an invalid date (one whose \<open>getTime()\<close> is NaN);
  \<open>toISOString\<close> is applied to valid dates only; \<open>fmtNumber\<close> is the conversion of a number
  to a string outside the safe integers.
\<close>

record 'd host =
  newDate :: "jsstring \<Rightarrow> 'd option"
  toISOString :: "'d \<Rightarrow> jsstring"
  toLowerCase :: "jsstring \<Rightarrow> jsstring"
  normalizeNFD :: "jsstring \<Rightarrow> jsstring"
  fmtNumber :: "rat \<Rightarrow> jsstring"

fun toDec :: "nat \<Rightarrow> jsstring" where
  "toDec n = (if n < 10 then [of_nat (48 + n)] else toDec (n div 10) @ [of_nat (48 + n mod 10)])"

declare toDec.simps [simp del]

definition numberToString :: "'d host \<Rightarrow> jsnum \<Rightarrow> jsstring" where
  \<comment> \<open>\<open>`${x}`\<close>: the decimal digits of a safe integer; the host's format beyond\<close>
  "numberToString h x =
     (case x of
        NaN \<Rightarrow> js ''NaN''
      | PInf \<Rightarrow> js ''Infinity''
      | NInf \<Rightarrow> js ''-Infinity''
      | Fin q \<Rightarrow>
          if of_int \<lfloor>q\<rfloor> = q \<and> \<bar>q\<bar> < 2 ^ 53
          then (if q < 0 then 0x2D # toDec (nat (- \<lfloor>q\<rfloor>)) else toDec (nat \<lfloor>q\<rfloor>))
          else fmtNumber h q)"

subsection \<open>Hash\<close>

definition imul :: "32 word \<Rightarrow> 32 word \<Rightarrow> 32 word" where
  \<comment> \<open>\<open>Math.imul\<close>: the low 32 bits of the product\<close>
  "imul a b = a * b"

fun hashLoop :: "jsstring \<Rightarrow> 32 word \<times> 32 word \<Rightarrow> 32 word \<times> 32 word" where
  "hashLoop [] (h1, h2) = (h1, h2)"
| "hashLoop (ch # raw) (h1, h2) =
     hashLoop raw (imul (h1 XOR ucast ch) 2654435761, imul (h2 XOR ucast ch) 1597334677)"

definition hexDigit :: "nat \<Rightarrow> cu" where
  "hexDigit n = (if n < 10 then of_nat (48 + n) else of_nat (87 + n))"

fun toHex :: "nat \<Rightarrow> jsstring" where
  \<comment> \<open>\<open>n.toString(16)\<close>\<close>
  "toHex n = (if n < 16 then [hexDigit n] else toHex (n div 16) @ [hexDigit (n mod 16)])"

declare toHex.simps [simp del]

definition padStart :: "nat \<Rightarrow> cu \<Rightarrow> jsstring \<Rightarrow> jsstring" where
  "padStart n c s = replicate (n - length s) c @ s"

definition computeImportHash :: "'d host \<Rightarrow> jsstring \<Rightarrow> jsstring \<Rightarrow> jsnum \<Rightarrow> jsstring" where
  "computeImportHash h dateStr descr cents =
     (let raw = dateStr @ js ''|'' @ descr @ js ''|'' @ numberToString h cents;
          (h1, h2) = hashLoop raw (0xdeadbeef, 0x41c6ce57);
          h1' = imul (h1 XOR drop_bit 16 h1) 2246822507 XOR imul (h2 XOR drop_bit 13 h2) 3266489909;
          h2' = imul (h2 XOR drop_bit 16 h2) 2246822507 XOR imul (h1' XOR drop_bit 13 h1') 3266489909;
          lo = padStart 8 0x30 (toHex (unat h1'));
          hi = padStart 8 0x30 (toHex (unat h2'))
      in hi @ lo)"

definition hexChars :: "cu set" where
  "hexChars = set (js ''0123456789abcdef'')"

subsection \<open>Helpers\<close>

definition startsWith :: "jsstring \<Rightarrow> jsstring \<Rightarrow> bool" where
  \<comment> \<open>\<open>s.startsWith(p)\<close>, and a pattern \<open>/^p/\<close> of literal characters\<close>
  "startsWith p s \<longleftrightarrow> take (length p) s = p"

definition startsWithAny :: "jsstring list \<Rightarrow> jsstring \<Rightarrow> bool" where
  \<comment> \<open>a pattern \<open>/^(p1|p2|...)/\<close> of literal alternatives\<close>
  "startsWithAny ps s \<longleftrightarrow> list_ex (\<lambda>p. startsWith p s) ps"

fun replaceFirst :: "cu \<Rightarrow> cu \<Rightarrow> jsstring \<Rightarrow> jsstring" where
  \<comment> \<open>\<open>s.replace(a, b)\<close> for one-character strings: the first occurrence only\<close>
  "replaceFirst a b [] = []"
| "replaceFirst a b (c # s) = (if c = a then b # s else c # replaceFirst a b s)"

definition allDigits :: "jsstring \<Rightarrow> bool" where
  "allDigits s \<longleftrightarrow> list_all isDigit s"

definition parseDate :: "'d host \<Rightarrow> jsstring \<Rightarrow> 'd option" where
  \<comment> \<open>\<open>None\<close> is the source's \<open>null\<close>\<close>
  "parseDate h raw0 =
     (let raw = trim raw0 in
      if length raw = 10 \<and> allDigits (jsSlice 0 2 raw) \<and> raw ! 2 = 0x2F
           \<and> allDigits (jsSlice 3 5 raw) \<and> raw ! 5 = 0x2F \<and> allDigits (jsSlice 6 10 raw)
      then (if jsSlice 0 2 raw = js ''00'' \<or> jsSlice 3 5 raw = js ''00'' then None
            else newDate h (jsSlice 6 10 raw @ js ''-'' @ jsSlice 3 5 raw @ js ''-'' @ jsSlice 0 2 raw
                              @ js ''T12:00:00''))
      else if 10 \<le> length raw \<and> allDigits (jsSlice 0 4 raw) \<and> raw ! 4 = 0x2D
           \<and> allDigits (jsSlice 5 7 raw) \<and> raw ! 7 = 0x2D \<and> allDigits (jsSlice 8 10 raw)
      then newDate h (jsSlice 0 4 raw @ js ''-'' @ jsSlice 5 7 raw @ js ''-'' @ jsSlice 8 10 raw
                        @ js ''T12:00:00'')
      else None)"

fun brGroups :: "jsstring \<Rightarrow> jsstring" where
  \<comment> \<open>what is left after \<open>(\.\d{3})*\<close>\<close>
  "brGroups (c # d1 # d2 # d3 # r) =
     (if c = 0x2E \<and> isDigit d1 \<and> isDigit d2 \<and> isDigit d3 then brGroups r
      else c # d1 # d2 # d3 # r)"
| "brGroups s = s"

definition brTail :: "jsstring \<Rightarrow> bool" where
  \<comment> \<open>\<open>(,\d{1,2})?$\<close>\<close>
  "brTail s \<longleftrightarrow>
     s = [] \<or> (hd s = 0x2C \<and> (length s = 2 \<or> length s = 3) \<and> allDigits (tl s))"

definition isBrFormat :: "jsstring \<Rightarrow> bool" where
  \<comment> \<open>\<open>/^\d{1,3}(\.\d{3})*(,\d{1,2})?$/\<close>\<close>
  "isBrFormat s \<longleftrightarrow>
     (let n = length (takeWhile isDigit s)
      in 1 \<le> n \<and> n \<le> 3 \<and> brTail (brGroups (dropWhile isDigit s)))"

definition parseAmountToCents :: "jsstring \<Rightarrow> jsnum" where
  "parseAmountToCents raw =
     (let cleaned0 = trim (filter (\<lambda>c. \<not> (c = 0x52 \<or> c = 0x24 \<or> isWs c)) raw);
          negative = startsWith (js ''-'') cleaned0;
          cleaned1 = (if negative then drop 1 cleaned0 else cleaned0);
          cleaned2 = (if isBrFormat cleaned1
                      then replaceFirst 0x2C 0x2E (filter (\<lambda>c. c \<noteq> 0x2E) cleaned1)
                      else replaceFirst 0x2C 0x2E cleaned1);
          v = parseFloat cleaned2;
          cents = (if v = NaN then Fin 0 else mathRound (jsMul v (Fin 100)))
      in if negative then jsNeg cents else cents)"

definition entryType :: "jsnum \<Rightarrow> LedgerEntryType" where
  "entryType cents = (if jsGe0 cents then income else expense)"

subsection \<open>CSV parser\<close>

fun splitLines :: "jsstring \<Rightarrow> jsstring \<Rightarrow> jsstring list" where
  \<comment> \<open>\<open>text.split(/\r?\n/)\<close>, \<open>cur\<close> being the line read so far\<close>
  "splitLines [] cur = [cur]"
| "splitLines [c] cur = (if c = 0x0A then [cur, []] else [cur @ [c]])"
| "splitLines (c # d # r) cur =
     (if c = 0x0A then cur # splitLines (d # r) []
      else if c = 0x0D \<and> d = 0x0A then cur # splitLines r []
      else splitLines (d # r) (cur @ [c]))"

definition csvLines :: "jsstring \<Rightarrow> jsstring list" where
  "csvLines text = filter (\<lambda>l. 0 < length l) (map trim (splitLines text []))"

fun splitLoop :: "cu \<Rightarrow> jsstring \<Rightarrow> jsstring \<Rightarrow> bool \<Rightarrow> jsstring list \<Rightarrow> jsstring list" where
  \<comment> \<open>the loop of \<open>splitRow\<close> over the characters still to read\<close>
  "splitLoop delimiter [] current inQuotes result = result @ [trim current]"
| "splitLoop delimiter (ch # rest) current inQuotes result =
     (if (ch = 0x22 \<or> ch = 0x27) \<and> \<not> inQuotes then splitLoop delimiter rest current True result
      else if ch = 0x22 \<and> inQuotes then
        (case rest of
           [] \<Rightarrow> splitLoop delimiter rest current False result
         | c2 # rest' \<Rightarrow>
             if c2 = 0x22 then splitLoop delimiter rest' (current @ [0x22]) inQuotes result
             else splitLoop delimiter rest current False result)
      else if ch = delimiter \<and> \<not> inQuotes then
        splitLoop delimiter rest [] inQuotes (result @ [trim current])
      else splitLoop delimiter rest (current @ [ch]) inQuotes result)"

definition splitRow :: "cu \<Rightarrow> jsstring \<Rightarrow> jsstring list" where
  "splitRow delimiter line = splitLoop delimiter line [] False []"

definition normStr :: "'d host \<Rightarrow> jsstring \<Rightarrow> jsstring" where
  \<comment> \<open>\<open>s.toLowerCase().normalize('NFD').replace(/[\u0300-\u036f]/g, '')\<close>\<close>
  "normStr h s = filter (\<lambda>c. \<not> (0x0300 \<le> c \<and> c \<le> 0x036F)) (normalizeNFD h (toLowerCase h s))"

fun findIndex :: "('a \<Rightarrow> bool) \<Rightarrow> 'a list \<Rightarrow> nat option" where
  \<comment> \<open>\<open>None\<close> is the source's \<open>-1\<close>\<close>
  "findIndex P [] = None"
| "findIndex P (x # xs) = (if P x then Some 0 else map_option Suc (findIndex P xs))"

definition wordChar :: "cu \<Rightarrow> bool" where
  \<comment> \<open>\<open>\w\<close>\<close>
  "wordChar c \<longleftrightarrow> (0x41 \<le> c \<and> c \<le> 0x5A) \<or> (0x61 \<le> c \<and> c \<le> 0x7A) \<or> isDigit c \<or> c = 0x5F"

definition isValueHeader :: "jsstring \<Rightarrow> bool" where
  \<comment> \<open>\<open>/^(valor|value|amount|val\b)/\<close>\<close>
  "isValueHeader s \<longleftrightarrow>
     startsWithAny [js ''valor'', js ''value'', js ''amount''] s
     \<or> (startsWith (js ''val'') s \<and> (length s = 3 \<or> \<not> wordChar (s ! 3)))"

definition isDocHeader :: "jsstring \<Rightarrow> bool" where
  \<comment> \<open>\<open>/^n[\<degree>o]?\s*(doc|documento)/\<close>\<close>
  "isDocHeader s \<longleftrightarrow>
     (case s of
        [] \<Rightarrow> False
      | c # r \<Rightarrow>
          c = 0x6E \<and>
          startsWith (js ''doc'')
            (dropWhile isWs (case r of
                               [] \<Rightarrow> r
                             | c2 # r' \<Rightarrow> if c2 = 0xB0 \<or> c2 = 0x6F then r' else r)))"

record csvIdx =
  dateIdx :: "nat option"
  descIdx :: "nat option"
  detailsIdx :: "nat option"
  docIdx :: "nat option"
  valueIdx :: "nat option"
  debitIdx :: "nat option"
  creditIdx :: "nat option"
  typeIdx :: "nat option"

definition findColumns :: "jsstring list \<Rightarrow> csvIdx" where
  "findColumns headers =
     \<lparr> dateIdx = findIndex (startsWithAny [js ''data'', js ''date'', js ''dt'']) headers,
       descIdx = findIndex (startsWithAny [js ''descri'', js ''histor'', js ''memo'', js ''lanc'',
                                           js ''descr'', js ''desc'']) headers,
       detailsIdx = findIndex (startsWithAny [js ''detalhe'', js ''detail'', js ''complemento'',
                                              js ''memo2'']) headers,
       docIdx = findIndex isDocHeader headers,
       valueIdx = findIndex isValueHeader headers,
       debitIdx = findIndex (startsWithAny [js ''debito'', js ''debit'', js ''saida'']) headers,
       creditIdx = findIndex (startsWithAny [js ''credito'', js ''credit'', js ''entrada'']) headers,
       typeIdx = findIndex (startsWithAny [js ''tipo'']) headers \<rparr>"

definition cell :: "jsstring list \<Rightarrow> nat option \<Rightarrow> jsstring" where
  \<comment> \<open>\<open>cols[idx] ?? ''\<close>; \<open>cols[-1]\<close> and an index past the end are undefined\<close>
  "cell cols idx = (case idx of None \<Rightarrow> [] | Some i \<Rightarrow> if i < length cols then cols ! i else [])"

definition present :: "jsstring list \<Rightarrow> nat option \<Rightarrow> bool" where
  \<comment> \<open>\<open>idx !== -1 && cols[idx]\<close>: the column exists and the cell is not empty\<close>
  "present cols idx \<longleftrightarrow> idx \<noteq> None \<and> cell cols idx \<noteq> []"

definition ciEq :: "cu \<Rightarrow> cu \<Rightarrow> bool" where
  \<comment> \<open>a pattern character under the flag \<open>i\<close>: an ASCII letter matches its two cases only\<close>
  "ciEq p c \<longleftrightarrow>
     c = p \<or> (0x61 \<le> p \<and> p \<le> 0x7A \<and> c = p - 0x20) \<or> (0x41 \<le> p \<and> p \<le> 0x5A \<and> c = p + 0x20)"

fun ciPrefix :: "jsstring \<Rightarrow> jsstring \<Rightarrow> jsstring option" where
  \<comment> \<open>the rest of \<open>s\<close> after the literal \<open>p\<close>, matched ignoring case\<close>
  "ciPrefix [] s = Some s"
| "ciPrefix (p # ps) [] = None"
| "ciPrefix (p # ps) (c # s) = (if ciEq p c then ciPrefix ps s else None)"

definition ws1 :: "jsstring \<Rightarrow> jsstring option" where
  \<comment> \<open>the rest of \<open>s\<close> after \<open>\s+\<close>\<close>
  "ws1 s = (if s \<noteq> [] \<and> isWs (hd s) then Some (dropWhile isWs s) else None)"

fun matchWords :: "jsstring list \<Rightarrow> jsstring \<Rightarrow> bool" where
  \<comment> \<open>\<open>/^w1\s+w2\s+...\<close>\<open>/i\<close>\<close>
  "matchWords [] s = True"
| "matchWords [w] s = (ciPrefix w s \<noteq> None)"
| "matchWords (w # w' # ws) s =
     (case ciPrefix w s of
        None \<Rightarrow> False
      | Some r \<Rightarrow> (case ws1 r of None \<Rightarrow> False | Some r' \<Rightarrow> matchWords (w' # ws) r'))"

definition SKIP_SALDO_ANTERIOR :: "jsstring \<Rightarrow> bool" where
  "SKIP_SALDO_ANTERIOR s = matchWords [js ''saldo'', js ''anterior''] s"

definition SKIP_SALDO_DO_DIA :: "jsstring \<Rightarrow> bool" where
  "SKIP_SALDO_DO_DIA s = matchWords [js ''saldo'', js ''do'', js ''dia''] s"

definition IS_SALDO :: "jsstring \<Rightarrow> bool" where
  "IS_SALDO s = matchWords [js ''s'', js ''a'', js ''l'', js ''d'', js ''o''] s"

datatype 'd csvRow = Discard | BalanceRow "'d ParsedBalance" | TransactionRow "'d ParsedTransaction"

definition optField :: "jsstring \<Rightarrow> jsstring option" where
  \<comment> \<open>\<open>if (s.trim()) entry.field = s.trim()\<close>\<close>
  "optField s = (if trim s \<noteq> [] then Some (trim s) else None)"

definition rowAmount :: "csvIdx \<Rightarrow> jsstring list \<Rightarrow> jsnum" where
  "rowAmount ix cols =
     (if present cols (valueIdx ix) then parseAmountToCents (cell cols (valueIdx ix))
      else if debitIdx ix \<noteq> None \<or> creditIdx ix \<noteq> None then
        (let debit = (if present cols (debitIdx ix)
                      then parseAmountToCents (cell cols (debitIdx ix)) else Fin 0);
             credit = (if present cols (creditIdx ix)
                       then parseAmountToCents (cell cols (creditIdx ix)) else Fin 0)
         in jsSub credit debit)
      else Fin 0)"

definition rowType :: "'d host \<Rightarrow> csvIdx \<Rightarrow> jsstring list \<Rightarrow> jsnum \<Rightarrow> LedgerEntryType" where
  "rowType h ix cols cents =
     (if present cols (typeIdx ix) then
        (let typeVal = normStr h (cell cols (typeIdx ix))
         in if startsWithAny [js ''entrada'', js ''credito'', js ''credit''] typeVal then income
            else if startsWithAny [js ''saida'', js ''debito'', js ''debit''] typeVal then expense
            else entryType cents)
      else entryType cents)"

definition csvRow :: "'d host \<Rightarrow> csvIdx \<Rightarrow> jsstring list \<Rightarrow> 'd csvRow" where
  \<comment> \<open>the body of the row loop of \<open>parseCsv\<close>\<close>
  "csvRow h ix cols =
     (case parseDate h (cell cols (dateIdx ix)) of
        None \<Rightarrow> Discard
      | Some d \<Rightarrow>
          (let lancamento = cell cols (descIdx ix) in
           if SKIP_SALDO_ANTERIOR lancamento then Discard
           else if SKIP_SALDO_DO_DIA lancamento then Discard
           else if IS_SALDO lancamento then
             (let cents = (if present cols (valueIdx ix)
                           then parseAmountToCents (cell cols (valueIdx ix))
                           else if present cols (creditIdx ix)
                           then parseAmountToCents (cell cols (creditIdx ix))
                           else Fin 0);
                  dateStr = jsSlice 0 10 (toISOString h d)
              in BalanceRow \<lparr> b_date = d, balanceCents = cents,
                              b_importHash = computeImportHash h dateStr (js ''SALDO'') cents \<rparr>)
           else
             (let dets = (if detailsIdx ix \<noteq> None then cell cols (detailsIdx ix) else []);
                  descr = lancamento;
                  docId = (if docIdx ix \<noteq> None then cell cols (docIdx ix) else []);
                  cents = rowAmount ix cols
              in if cents = Fin 0 \<and> descr = [] then Discard
                 else
                   (let ty = rowType h ix cols cents;
                        dateStr = jsSlice 0 10 (toISOString h d)
                    in TransactionRow
                         \<lparr> date = d, description = descr, details = optField dets,
                           documentId = optField docId, amountCents = mathAbs cents, type = ty,
                           importHash = computeImportHash h dateStr descr (mathAbs cents) \<rparr>))))"

fun csvLoop ::
  "'d host \<Rightarrow> cu \<Rightarrow> csvIdx \<Rightarrow> jsstring list \<Rightarrow> 'd ParsedBankStatement \<Rightarrow> 'd ParsedBankStatement" where
  "csvLoop h delimiter ix [] acc = acc"
| "csvLoop h delimiter ix (line # rest) acc =
     csvLoop h delimiter ix rest
       (case csvRow h ix (splitRow delimiter line) of
          Discard \<Rightarrow> acc
        | BalanceRow b \<Rightarrow> acc\<lparr>balances := balances acc @ [b]\<rparr>
        | TransactionRow t \<Rightarrow> acc\<lparr>transactions := transactions acc @ [t]\<rparr>)"

definition parseCsv :: "'d host \<Rightarrow> jsstring \<Rightarrow> 'd ParsedBankStatement" where
  "parseCsv h text =
     (let lines = csvLines text in
      if length lines < 2 then \<lparr>transactions = [], balances = []\<rparr>
      else
        (let delimiter = (if 0x3B \<in> set (hd lines) then 0x3B else 0x2C);
             headers = map (normStr h) (splitRow delimiter (hd lines));
             ix = findColumns headers
         in if dateIdx ix = None \<or> descIdx ix = None then \<lparr>transactions = [], balances = []\<rparr>
            else csvLoop h delimiter ix (tl lines) \<lparr>transactions = [], balances = []\<rparr>))"

subsection \<open>OFX parser\<close>

fun findCi :: "jsstring \<Rightarrow> jsstring \<Rightarrow> jsstring \<Rightarrow> (jsstring \<times> jsstring) option" where
  \<comment> \<open>the first occurrence of the literal \<open>p\<close> in \<open>s\<close>, ignoring case: the text before it
      (after \<open>before\<close>) and the text after it\<close>
  "findCi p [] before = (case ciPrefix p [] of None \<Rightarrow> None | Some r \<Rightarrow> Some (before, r))"
| "findCi p (c # s) before =
     (case ciPrefix p (c # s) of
        None \<Rightarrow> findCi p s (before @ [c])
      | Some r \<Rightarrow> Some (before, r))"

function closedBlocks :: "jsstring \<Rightarrow> jsstring list" where
  \<comment> \<open>the bodies of the successive matches of \<open>/<STMTTRN>([\s\S]*?)<\/STMTTRN>/gi\<close>\<close>
  "closedBlocks text =
     (case findCi (js ''<STMTTRN>'') text [] of
        None \<Rightarrow> []
      | Some (skipped, afterOpen) \<Rightarrow>
          (case findCi (js ''</STMTTRN>'') afterOpen [] of
             None \<Rightarrow> []
           | Some (body, rest) \<Rightarrow> body # closedBlocks rest))"
  by pat_completeness auto
termination
proof (relation "measure length")
  show "wf (measure length)" by simp
next
  fix input :: jsstring and x skipped afterOpen y body rest
  assume a: "findCi (js ''<STMTTRN>'') input [] = Some x" "(skipped, afterOpen) = x"
    and b: "findCi (js ''</STMTTRN>'') afterOpen [] = Some y" "(body, rest) = y"
  have pre: "ciPrefix p s = Some r \<Longrightarrow> length r + length p = length s" for p s r
    by (induction p s rule: ciPrefix.induct) (auto split: if_splits)
  have fnd: "findCi p s bf = Some (u, r) \<Longrightarrow> length r + length p \<le> length s" for p s bf u r
  proof (induction s arbitrary: bf)
    case Nil
    then show ?case by (auto split: option.splits dest: pre)
  next
    case (Cons c s)
    then show ?case by (fastforce split: option.splits dest: pre)
  qed
  from a have "length afterOpen + length (js ''<STMTTRN>'') \<le> length input"
    using fnd [of "js ''<STMTTRN>''" input "[]" skipped afterOpen] by simp
  moreover from b have "length rest + length (js ''</STMTTRN>'') \<le> length afterOpen"
    using fnd [of "js ''</STMTTRN>''" afterOpen "[]" body rest] by simp
  ultimately show "(rest, input) \<in> measure length" by (simp add: js_def)
qed

fun untilBoundary :: "jsstring \<Rightarrow> jsstring \<Rightarrow> jsstring \<times> jsstring" where
  \<comment> \<open>\<open>([\s\S]*?)(?=<STMTTRN>|<\/BANKTRANLIST>|$)\<close>: the shortest body ending before a
      boundary, and the text from the boundary on\<close>
  "untilBoundary [] body = (body, [])"
| "untilBoundary (c # s) body =
     (if ciPrefix (js ''<STMTTRN>'') (c # s) \<noteq> None \<or> ciPrefix (js ''</BANKTRANLIST>'') (c # s) \<noteq> None
      then (body, c # s)
      else untilBoundary s (body @ [c]))"

function sgmlBlocks :: "jsstring \<Rightarrow> jsstring list" where
  \<comment> \<open>the bodies of the successive matches of
      \<open>/<STMTTRN>([\s\S]*?)(?=<STMTTRN>|<\/BANKTRANLIST>|$)/gi\<close>\<close>
  "sgmlBlocks text =
     (case findCi (js ''<STMTTRN>'') text [] of
        None \<Rightarrow> []
      | Some (skipped, afterOpen) \<Rightarrow>
          (case untilBoundary afterOpen [] of (body, rest) \<Rightarrow> body # sgmlBlocks rest))"
  by pat_completeness auto
termination
proof (relation "measure length")
  show "wf (measure length)" by simp
next
  fix input :: jsstring and x skipped afterOpen body rest
  assume a: "findCi (js ''<STMTTRN>'') input [] = Some x" "(skipped, afterOpen) = x"
    and b: "(body, rest) = untilBoundary afterOpen []"
  have pre: "ciPrefix p s = Some r \<Longrightarrow> length r + length p = length s" for p s r
    by (induction p s rule: ciPrefix.induct) (auto split: if_splits)
  have fnd: "findCi p s bf = Some (u, r) \<Longrightarrow> length r + length p \<le> length s" for p s bf u r
  proof (induction s arbitrary: bf)
    case Nil
    then show ?case by (auto split: option.splits dest: pre)
  next
    case (Cons c s)
    then show ?case by (fastforce split: option.splits dest: pre)
  qed
  have unt: "untilBoundary s bd = (u, r) \<Longrightarrow> length r \<le> length s" for s bd u r
  proof (induction s arbitrary: bd)
    case Nil
    then show ?case by simp
  next
    case (Cons c s)
    show ?case
    proof (cases "ciPrefix (js ''<STMTTRN>'') (c # s) \<noteq> None
                  \<or> ciPrefix (js ''</BANKTRANLIST>'') (c # s) \<noteq> None")
      case True
      with Cons.prems show ?thesis by auto
    next
      case False
      with Cons.prems have "untilBoundary s (bd @ [c]) = (u, r)" by simp
      then have "length r \<le> length s" by (rule Cons.IH)
      then show ?thesis by simp
    qed
  qed
  from a have "length afterOpen + length (js ''<STMTTRN>'') \<le> length input"
    using fnd [of "js ''<STMTTRN>''" input "[]" skipped afterOpen] by simp
  moreover from b have "length rest \<le> length afterOpen"
    using unt [of afterOpen "[]" body rest] by simp
  ultimately show "(rest, input) \<in> measure length" by (simp add: js_def)
qed

definition isLetter :: "cu \<Rightarrow> bool" where
  \<comment> \<open>\<open>[A-Z]\<close> under the flag \<open>i\<close>\<close>
  "isLetter c \<longleftrightarrow> (0x41 \<le> c \<and> c \<le> 0x5A) \<or> (0x61 \<le> c \<and> c \<le> 0x7A)"

definition valueChar :: "cu \<Rightarrow> bool" where
  \<comment> \<open>\<open>[^<\n\r]\<close>\<close>
  "valueChar c \<longleftrightarrow> c \<noteq> 0x3C \<and> c \<noteq> 0x0A \<and> c \<noteq> 0x0D"

definition tagAt :: "jsstring \<Rightarrow> (jsstring \<times> jsstring \<times> jsstring) option" where
  \<comment> \<open>a match of \<open>/<([A-Z]+)>([^<\n\r]*)/i\<close> at the start of \<open>s\<close>: the tag, the value and
      the text after the match\<close>
  "tagAt s =
     (case s of
        [] \<Rightarrow> None
      | c # r \<Rightarrow>
          (let name = takeWhile isLetter r; r1 = dropWhile isLetter r
           in if c = 0x3C \<and> name \<noteq> [] \<and> r1 \<noteq> [] \<and> hd r1 = 0x3E
              then Some (name, takeWhile valueChar (tl r1), dropWhile valueChar (tl r1))
              else None))"

definition asciiUpper :: "cu \<Rightarrow> cu" where
  \<comment> \<open>\<open>toUpperCase\<close> on the letters a tag consists of\<close>
  "asciiUpper c = (if 0x61 \<le> c \<and> c \<le> 0x7A then c - 0x20 else c)"

function ofxFields :: "jsstring \<Rightarrow> (jsstring \<rightharpoonup> jsstring) \<Rightarrow> (jsstring \<rightharpoonup> jsstring)" where
  \<comment> \<open>the loop over the matches of \<open>tagRe\<close> in a block: a later tag overwrites an earlier one\<close>
  "ofxFields [] flds = flds"
| "ofxFields (c # s) flds =
     (case tagAt (c # s) of
        None \<Rightarrow> ofxFields s flds
      | Some (name, v, rest) \<Rightarrow> ofxFields rest (flds(map asciiUpper name \<mapsto> trim v)))"
  by pat_completeness auto
termination
proof (relation "measure (\<lambda>(s, flds). length s)")
  show "wf (measure (\<lambda>(s, flds). length s))" by simp
next
  fix c :: cu and s :: jsstring and flds :: "jsstring \<rightharpoonup> jsstring"
  show "((s, flds), c # s, flds) \<in> measure (\<lambda>(s, flds). length s)" by simp
next
  fix c :: cu and s :: jsstring and flds :: "jsstring \<rightharpoonup> jsstring"
    and x name y v rest
  assume a: "tagAt (c # s) = Some x" "(name, y) = x" "(v, rest) = y"
  have "length (dropWhile valueChar (tl (dropWhile isLetter s))) \<le> length s"
    by (metis length_dropWhile_le length_tl diff_le_self le_trans)
  with a show "((rest, flds(map asciiUpper name \<mapsto> trim v)), c # s, flds)
      \<in> measure (\<lambda>(s, flds). length s)"
    by (auto simp: tagAt_def Let_def split: if_splits)
qed

fun stripDigitRuns :: "jsstring \<Rightarrow> jsstring \<Rightarrow> jsstring" where
  \<comment> \<open>\<open>s.replace(/\d+\W/g, "")\<close>, \<open>run\<close> being the digits read since the last other
      character: a run of digits goes with the character after it when that is not a
      word character, and stays otherwise\<close>
  "stripDigitRuns [] run = run"
| "stripDigitRuns (c # s) run =
     (if isDigit c then stripDigitRuns s (run @ [c])
      else if run \<noteq> [] \<and> \<not> wordChar c then stripDigitRuns s []
      else run @ c # stripDigitRuns s [])"

datatype jsError = RangeError

definition field :: "(jsstring \<rightharpoonup> jsstring) \<Rightarrow> jsstring \<Rightarrow> jsstring" where
  \<comment> \<open>\<open>fields[k] ?? ''\<close>\<close>
  "field flds k = (case flds k of None \<Rightarrow> [] | Some v \<Rightarrow> v)"

definition ofxAmount :: "(jsstring \<rightharpoonup> jsstring) \<Rightarrow> jsnum" where
  "ofxAmount flds =
     (let rawAmount = (case flds (js ''TRNAMT'') of None \<Rightarrow> js ''0'' | Some v \<Rightarrow> v);
          amountFloat = parseFloat (replaceFirst 0x2C 0x2E rawAmount)
      in if amountFloat = NaN then Fin 0 else mathRound (jsMul amountFloat (Fin 100)))"

definition ofxTransaction ::
  "'d host \<Rightarrow> (jsstring \<rightharpoonup> jsstring) \<Rightarrow> jsstring \<Rightarrow> jsError + 'd ParsedTransaction option" where
  \<comment> \<open>what both passes do with a block once its description is chosen: \<open>Inr None\<close> is
      \<open>continue\<close>, \<open>Inl RangeError\<close> what \<open>toISOString\<close> throws on an invalid date\<close>
  "ofxTransaction h flds descr =
     (let dtPosted = field flds (js ''DTPOSTED'');
          year = jsSlice 0 4 dtPosted;
          month = jsSlice 4 6 dtPosted;
          day = jsSlice 6 8 dtPosted
      in if year = [] \<or> month = [] \<or> day = [] then Inr None
         else
           (case newDate h (year @ js ''-'' @ month @ js ''-'' @ day @ js ''T12:00:00'') of
              None \<Rightarrow> Inl RangeError
            | Some d \<Rightarrow>
                (let cents = ofxAmount flds;
                     dateStr = jsSlice 0 10 (toISOString h d);
                     fitid = field flds (js ''FITID'')
                 in Inr (Some \<lparr> date = d, description = descr, details = None,
                                 documentId = optField fitid, amountCents = mathAbs cents,
                                 type = entryType cents,
                                 importHash = computeImportHash h dateStr descr (mathAbs cents) \<rparr>))))"

definition closedEntry :: "'d host \<Rightarrow> jsstring \<Rightarrow> jsError + 'd ParsedTransaction option" where
  \<comment> \<open>the body of the first loop of \<open>parseOfx\<close>: the description is the memo without its
      digit runs, and \<open>memo ?? name ?? ...\<close> never reaches the name, \<open>memo\<close> being a string\<close>
  "closedEntry h body =
     (let flds = ofxFields body Map.empty;
          name = field flds (js ''NAME'');
          memo = (case flds (js ''MEMO'') of None \<Rightarrow> [] | Some v \<Rightarrow> stripDigitRuns v [])
      in if name = js ''Saldo Anterior'' \<or> name = js ''Saldo do dia'' then Inr None
         else ofxTransaction h flds memo)"

definition sgmlEntry :: "'d host \<Rightarrow> jsstring \<Rightarrow> jsError + 'd ParsedTransaction option" where
  \<comment> \<open>the body of the second loop of \<open>parseOfx\<close>\<close>
  "sgmlEntry h body =
     (let flds = ofxFields body Map.empty in
      if flds (js ''NAME'') = Some (js ''Saldo Anterior'')
         \<or> flds (js ''NAME'') = Some (js ''Saldo do Dia'') then Inr None
      else ofxTransaction h flds
             (case flds (js ''MEMO'') of
                Some v \<Rightarrow> v
              | None \<Rightarrow> (case flds (js ''NAME'') of
                           Some v \<Rightarrow> v
                         | None \<Rightarrow> field flds (js ''FITID''))))"

fun ofxLoop ::
  "(jsstring \<Rightarrow> jsError + 'd ParsedTransaction option) \<Rightarrow> jsstring list \<Rightarrow> 'd ParsedTransaction list
     \<Rightarrow> jsError + 'd ParsedTransaction list" where
  "ofxLoop entry [] acc = Inr acc"
| "ofxLoop entry (body # rest) acc =
     (case entry body of
        Inl e \<Rightarrow> Inl e
      | Inr None \<Rightarrow> ofxLoop entry rest acc
      | Inr (Some t) \<Rightarrow> ofxLoop entry rest (acc @ [t]))"

definition parseOfx :: "'d host \<Rightarrow> jsstring \<Rightarrow> jsError + 'd ParsedBankStatement" where
  "parseOfx h text =
     (case ofxLoop (closedEntry h) (closedBlocks text) [] of
        Inl e \<Rightarrow> Inl e
      | Inr txs \<Rightarrow>
          if length txs = 0 then
            (case ofxLoop (sgmlEntry h) (sgmlBlocks text) txs of
               Inl e \<Rightarrow> Inl e
             | Inr txs' \<Rightarrow> Inr \<lparr>transactions = txs', balances = []\<rparr>)
          else Inr \<lparr>transactions = txs, balances = []\<rparr>)"

subsection \<open>Two hosts and sample data\<close>

text \<open>
  Two hosts for running the parser on concrete statements. Both are machines in the UTC
  time zone handling ASCII text, where lower-casing touches \<open>A\<close> to \<open>Z\<close> only and NFD changes
  nothing; a date is its calendar day. They differ in \<open>new Date("YYYY-MM-DDT12:00:00")\<close> for a
  day past the end of its month: the strict host answers with an invalid date (as
  SpiderMonkey does), the lenient host rolls the day over into the next month (as V8 does:
  \<open>new Date("2024-02-31T12:00:00")\<close> is the second of March there). The number format beyond
  the safe integers plays no part in the examples.
\<close>

type_synonym ymd = "nat \<times> nat \<times> nat"

definition leapYear :: "nat \<Rightarrow> bool" where
  "leapYear y \<longleftrightarrow> (y mod 4 = 0 \<and> y mod 100 \<noteq> 0) \<or> y mod 400 = 0"

definition daysInMonth :: "nat \<Rightarrow> nat \<Rightarrow> nat" where
  "daysInMonth y m =
     (if m = 2 then (if leapYear y then 29 else 28)
      else if m = 4 \<or> m = 6 \<or> m = 9 \<or> m = 11 then 30 else 31)"

definition isoFields :: "jsstring \<Rightarrow> ymd option" where
  \<comment> \<open>year, month and day of \<open>YYYY-MM-DDT12:00:00\<close>, the month within 1 to 12 and the day
      within 1 to 31\<close>
  "isoFields s =
     (if length s = 19 \<and> allDigits (jsSlice 0 4 s) \<and> s ! 4 = 0x2D \<and> allDigits (jsSlice 5 7 s)
         \<and> s ! 7 = 0x2D \<and> allDigits (jsSlice 8 10 s) \<and> drop 10 s = js ''T12:00:00''
      then
        (let y = digitsVal (jsSlice 0 4 s); m = digitsVal (jsSlice 5 7 s);
             d = digitsVal (jsSlice 8 10 s)
         in if 1 \<le> m \<and> m \<le> 12 \<and> 1 \<le> d \<and> d \<le> 31 then Some (y, m, d) else None)
      else None)"

definition strictDate :: "jsstring \<Rightarrow> ymd option" where
  "strictDate s =
     (case isoFields s of
        None \<Rightarrow> None
      | Some (y, m, d) \<Rightarrow> if d \<le> daysInMonth y m then Some (y, m, d) else None)"

definition lenientDate :: "jsstring \<Rightarrow> ymd option" where
  "lenientDate s =
     (case isoFields s of
        None \<Rightarrow> None
      | Some (y, m, d) \<Rightarrow>
          if d \<le> daysInMonth y m then Some (y, m, d) else Some (y, m + 1, d - daysInMonth y m))"

definition isoString :: "ymd \<Rightarrow> jsstring" where
  "isoString t =
     (case t of (y, m, d) \<Rightarrow>
        padStart 4 0x30 (toDec y) @ js ''-'' @ padStart 2 0x30 (toDec m) @ js ''-''
          @ padStart 2 0x30 (toDec d) @ js ''T12:00:00.000Z'')"

definition asciiLower :: "cu \<Rightarrow> cu" where
  "asciiLower c = (if 0x41 \<le> c \<and> c \<le> 0x5A then c + 0x20 else c)"

definition utcHost :: "(jsstring \<Rightarrow> ymd option) \<Rightarrow> ymd host" where
  "utcHost mk = \<lparr> newDate = mk, toISOString = isoString, toLowerCase = map asciiLower,
                 normalizeNFD = (\<lambda>s. s), fmtNumber = (\<lambda>q. []) \<rparr>"

definition strictHost :: "ymd host" where
  "strictHost = utcHost strictDate"

definition lenientHost :: "ymd host" where
  "lenientHost = utcHost lenientDate"

subsection \<open>The ledger collection and the reconciler\<close>

text \<open>
  A document of \<open>users/{uid}/ledgerEntries\<close>. Entries added by hand carry no \<open>importHash\<close>;
  the import writes the fields below. Document identifiers are assigned by the store and
  never read by the import, so a collection is the list of its documents in write order.
\<close>

type_synonym timestamp = int

record 'd ledgerDoc =
  d_userId :: jsstring
  d_accountId :: jsstring
  d_type :: LedgerEntryType
  d_amountCents :: jsnum
  d_description :: jsstring
  d_date :: 'd
  d_importHash :: "jsstring option"
  d_createdAt :: timestamp
  d_updatedAt :: timestamp
  d_details :: "jsstring option"
  d_documentId :: "jsstring option"

text \<open>
  The store: one ledger collection per user, and the number of existence queries and of
  write batches it has served. A query \<open>where('importHash', 'in', chunk)\<close> is refused for an
  empty list or more than 30 values, a write batch for more than 500 writes.
\<close>

record 'd firestore =
  ledgerCol :: "jsstring \<Rightarrow> 'd ledgerDoc list"
  queries :: nat
  commits :: nat

datatype storeError = InvalidArgument

definition getDocsIn ::
  "'d firestore \<Rightarrow> jsstring \<Rightarrow> jsstring list \<Rightarrow> storeError + ('d ledgerDoc list \<times> 'd firestore)" where
  "getDocsIn st userId chunk =
     (if chunk = [] \<or> 30 < length chunk then Inl InvalidArgument
      else Inr (filter (\<lambda>d. case d_importHash d of None \<Rightarrow> False | Some h \<Rightarrow> h \<in> set chunk)
                  (ledgerCol st userId),
                st\<lparr>queries := Suc (queries st)\<rparr>))"

definition commitBatch ::
  "'d firestore \<Rightarrow> jsstring \<Rightarrow> 'd ledgerDoc list \<Rightarrow> storeError + 'd firestore" where
  "commitBatch st userId batch =
     (if 500 < length batch then Inl InvalidArgument
      else Inr (st\<lparr>ledgerCol := (ledgerCol st)(userId := ledgerCol st userId @ batch),
                   commits := Suc (commits st)\<rparr>))"

record ImportResult =
  imported :: nat
  skipped :: nat

definition addHashes :: "'d ledgerDoc list \<Rightarrow> jsstring set \<Rightarrow> jsstring set" where
  \<comment> \<open>\<open>snap.docs.forEach\<close>: a hash that is undefined or empty is falsy and not added\<close>
  "addHashes snap existingHashes =
     foldl (\<lambda>acc d. case d_importHash d of
                       None \<Rightarrow> acc
                     | Some h \<Rightarrow> if h \<noteq> [] then insert h acc else acc)
           existingHashes snap"

function existLoop ::
  "'d firestore \<Rightarrow> jsstring \<Rightarrow> jsstring list \<Rightarrow> nat \<Rightarrow> jsstring set
     \<Rightarrow> storeError + (jsstring set \<times> 'd firestore)" where
  "existLoop st userId allHashes i existingHashes =
     (if i < length allHashes then
        (case getDocsIn st userId (jsSlice i (i + 30) allHashes) of
           Inl e \<Rightarrow> Inl e
         | Inr (snap, st') \<Rightarrow>
             existLoop st' userId allHashes (i + 30) (addHashes snap existingHashes))
      else Inr (existingHashes, st))"
  by pat_completeness auto
termination
  by (relation "measure (\<lambda>(st, userId, allHashes, i, existingHashes). length allHashes - i)") auto

definition truthy :: "jsstring option \<Rightarrow> bool" where
  \<comment> \<open>\<open>s && s.trim()\<close> for an optional string\<close>
  "truthy s = (case s of None \<Rightarrow> False | Some v \<Rightarrow> v \<noteq> [] \<and> trim v \<noteq> [])"

definition mkEntry ::
  "jsstring \<Rightarrow> jsstring \<Rightarrow> timestamp \<Rightarrow> 'd ParsedTransaction \<Rightarrow> 'd ledgerDoc" where
  "mkEntry userId accountId now t =
     \<lparr> d_userId = userId, d_accountId = accountId, d_type = type t,
       d_amountCents = amountCents t, d_description = description t, d_date = date t,
       d_importHash = Some (importHash t), d_createdAt = now, d_updatedAt = now,
       d_details = (if truthy (details t) then details t else None),
       d_documentId = (if truthy (documentId t) then documentId t else None) \<rparr>"

text \<open>\<open>clock i\<close> is what \<open>Timestamp.now()\<close> returns for the write batch that starts at index \<open>i\<close>.\<close>

function writeLoop ::
  "(nat \<Rightarrow> timestamp) \<Rightarrow> 'd firestore \<Rightarrow> jsstring \<Rightarrow> jsstring \<Rightarrow> 'd ParsedTransaction list \<Rightarrow> nat
     \<Rightarrow> storeError + 'd firestore" where
  "writeLoop clock st userId accountId toImport i =
     (if i < length toImport then
        (case commitBatch st userId
                (map (mkEntry userId accountId (clock i)) (jsSlice i (i + 500) toImport)) of
           Inl e \<Rightarrow> Inl e
         | Inr st' \<Rightarrow> writeLoop clock st' userId accountId toImport (i + 500))
      else Inr st)"
  by pat_completeness auto
termination
  by (relation "measure (\<lambda>(clock, st, userId, accountId, toImport, i). length toImport - i)") auto

definition importLedgerEntries ::
  "(nat \<Rightarrow> timestamp) \<Rightarrow> 'd firestore \<Rightarrow> jsstring \<Rightarrow> jsstring \<Rightarrow> 'd ParsedTransaction list
     \<Rightarrow> storeError + (ImportResult \<times> 'd firestore)" where
  "importLedgerEntries clock st userId accountId txs =
     (if length txs = 0 then Inr (\<lparr>imported = 0, skipped = 0\<rparr>, st)
      else
        (let allHashes = map importHash txs in
          (case existLoop st userId allHashes 0 {} of
             Inl e \<Rightarrow> Inl e
           | Inr (existingHashes, st1) \<Rightarrow>
              (let toImport = filter (\<lambda>t. importHash t \<notin> existingHashes) txs;
                   skipped = length txs - length toImport
               in (case writeLoop clock st1 userId accountId toImport 0 of
                     Inl e \<Rightarrow> Inl e
                   | Inr st2 \<Rightarrow> Inr (\<lparr>imported = length toImport, skipped = skipped\<rparr>, st2))))))"

definition storedHashes :: "'d firestore \<Rightarrow> jsstring \<Rightarrow> jsstring set" where
  \<comment> \<open>the fingerprints a user's collection holds that the existence check can see\<close>
  "storedHashes st userId = {h. h \<noteq> [] \<and> Some h \<in> d_importHash ` set (ledgerCol st userId)}"

definition written ::
  "(nat \<Rightarrow> timestamp) \<Rightarrow> jsstring \<Rightarrow> jsstring \<Rightarrow> 'd ledgerDoc list \<Rightarrow> 'd ParsedTransaction list
     \<Rightarrow> bool" where
  \<comment> \<open>\<open>ds\<close> are the documents the write batches build for the transactions \<open>ts\<close>, in order\<close>
  "written clock userId accountId ds ts =
     list_all2 (\<lambda>d t. \<exists>k. d = mkEntry userId accountId (clock k) t) ds ts"

subsection \<open>Sample statements and stores\<close>

text \<open>
  Two statement rows that look the same (same day, description and amount, so the same
  fingerprint) and differ in the bank's document number only; a third, different row; an
  empty store; and a store holding one entry made by hand, which has no fingerprint.
\<close>

definition emptyStore :: "ymd firestore" where
  "emptyStore = \<lparr>ledgerCol = (\<lambda>u. []), queries = 0, commits = 0\<rparr>"

definition cafe :: "ymd ParsedTransaction" where
  "cafe = \<lparr>date = (2024, 3, 1), description = js ''Cafe'', details = None, documentId = None,
           amountCents = Fin 500, type = expense, importHash = js ''d6bf37450ceea8ab''\<rparr>"

definition cafe2 :: "ymd ParsedTransaction" where
  "cafe2 = cafe\<lparr>documentId := Some (js ''0002'')\<rparr>"

definition almoco :: "ymd ParsedTransaction" where
  "almoco = \<lparr>date = (2024, 3, 2), description = js ''Almoco'', details = None, documentId = None,
             amountCents = Fin 3250, type = expense, importHash = js ''8106b06a6a34baa8''\<rparr>"

definition manualStore :: "ymd firestore" where
  "manualStore =
     \<lparr>ledgerCol = (\<lambda>u. [])(js ''u1'' :=
        [\<lparr>d_userId = js ''u1'', d_accountId = js ''acc'', d_type = income,
          d_amountCents = Fin 100000, d_description = js ''Salario'', d_date = (2024, 2, 28),
          d_importHash = None, d_createdAt = 7, d_updatedAt = 7, d_details = None,
          d_documentId = None\<rparr>]),
      queries = 0, commits = 0\<rparr>"

definition quotedCsv :: jsstring where
  \<comment> \<open>a comma-delimited statement whose amount is quoted: \<open>01/03/2024,Compra,"1.112,00"\<close>\<close>
  "quotedCsv = js ''Data,Descricao,Valor'' @ [0x0A]
     @ js ''01/03/2024,Compra,'' @ [0x22] @ js ''1.112,00'' @ [0x22]"

definition dateDescValue :: csvIdx where
  \<comment> \<open>the columns of a header \<open>Data;Descricao;Valor\<close>\<close>
  "dateDescValue = \<lparr> dateIdx = Some 0, descIdx = Some 1, detailsIdx = None, docIdx = None,
                       valueIdx = Some 2, debitIdx = None, creditIdx = None, typeIdx = None \<rparr>"

definition feb31Csv :: jsstring where
  "feb31Csv = js ''Data;Descricao;Valor'' @ [0x0A] @ js ''31/02/2024;Aluguel;-100,00''"

definition saldoCsv :: jsstring where
  "saldoCsv = js ''Data;Lancamento;Valor'' @ [0x0A]
     @ js ''29/02/2024;Saldo Anterior;1.000,00'' @ [0x0A]
     @ js ''01/03/2024;S A L D O;5.234,00''"

definition infCsv :: jsstring where
  "infCsv = js ''Data;Descricao;Debito;Credito'' @ [0x0A] @ js ''01/03/2024;X;Infinity;Infinity''"

definition flatOfx :: jsstring where
  \<comment> \<open>one transaction block of the flat dialect: no closing tag\<close>
  "flatOfx = js ''<STMTTRN><TRNTYPE>DEBIT<DTPOSTED>20240301<TRNAMT>-10.00<FITID>7<MEMO>Compra 123 Loja''"

definition closedOfx :: jsstring where
  \<comment> \<open>the same block with its closing tag\<close>
  "closedOfx = flatOfx @ js ''</STMTTRN>''"

definition flatNameOfx :: jsstring where
  \<comment> \<open>a block with a name and no memo\<close>
  "flatNameOfx = js ''<STMTTRN><DTPOSTED>20240301<TRNAMT>25.00<NAME>Padaria''"

definition closedNameOfx :: jsstring where
  "closedNameOfx = flatNameOfx @ js ''</STMTTRN>''"

subsection \<open>Predicates\<close>

definition wellFormed :: "'d ParsedTransaction \<Rightarrow> bool" where
  \<comment> \<open>the invariant of the data model\<close>
  "wellFormed t \<longleftrightarrow> jsGe0 (amountCents t) \<and> (type t = income \<or> type t = expense)"

definition typed :: "'d ParsedTransaction \<Rightarrow> bool" where
  \<comment> \<open>the same, but for an amount that is NaN\<close>
  "typed t \<longleftrightarrow> (type t = income \<or> type t = expense)
               \<and> (amountCents t = NaN \<or> jsGe0 (amountCents t))"

section \<open>Properties\<close>

subsection \<open>Numbers\<close>

lemma ilog2_le: "0 < n \<Longrightarrow> 2 ^ ilog2 n \<le> n"
proof (induction n rule: ilog2.induct)
  case (1 n)
  show ?case
  proof (cases "n < 2")
    case True
    with "1.prems" show ?thesis by (simp add: ilog2.simps [of n])
  next
    case False
    then have "0 < n div 2" by simp
    with False "1.IH" have "2 ^ ilog2 (n div 2) \<le> n div 2" by simp
    then have "2 * 2 ^ ilog2 (n div 2) \<le> n" by simp
    with False show ?thesis by (simp add: ilog2.simps [of n])
  qed
qed

lemma ilog2_less: assumes "0 < n" "n < 2 ^ k" shows "ilog2 n < k"
proof (rule ccontr)
  assume "\<not> ilog2 n < k"
  then have "k \<le> ilog2 n" by simp
  then have "(2::nat) ^ k \<le> 2 ^ ilog2 n" by (simp add: power_increasing)
  also have "\<dots> \<le> n" using assms(1) by (rule ilog2_le)
  finally show False using assms(2) by simp
qed

lemma roundHalfEven_int: "roundHalfEven (of_int m) = m"
  by (simp add: roundHalfEven_def Let_def)

lemma rd_nat:
  assumes "n < 2 ^ 53"
  shows "rd (of_nat n) = Fin (of_nat n)"
proof (cases "n = 0")
  case True
  then show ?thesis by (simp add: rd_def)
next
  case False
  then have pos: "0 < n" by simp
  define e where "e = ilog2 n"
  define k where "k = 52 - e"
  have e: "e < 53" unfolding e_def using pos assms by (rule ilog2_less)
  have fl: "floorLog2 (of_nat n) = int e"
    using pos by (simp add: floorLog2_def e_def)
  have u: "pow2 (int e - 52) = 1 / 2 ^ k"
    using e by (auto simp: pow2_def k_def nat_diff_distrib')
  have "(of_nat n :: rat) / (1 / 2 ^ k) = of_int (int (n * 2 ^ k))" by simp
  then have r: "roundHalfEven ((of_nat n :: rat) / (1 / 2 ^ k)) = int (n * 2 ^ k)"
    by (simp only: roundHalfEven_int)
  have v: "(of_int (int (n * 2 ^ k)) :: rat) * (1 / 2 ^ k) = of_nat n" by simp
  have "(of_nat n :: rat) < 2 ^ 53" using assms by (metis of_nat_less_iff of_nat_numeral of_nat_power)
  also have "(2 :: rat) ^ 53 \<le> 2 ^ 1024" by (rule power_increasing) simp_all
  finally have big: "\<not> (pow2 1024 \<le> (of_nat n :: rat))" by (simp add: pow2_def)
  have m: "max (int e) (- 1022) = int e" by simp
  show ?thesis
    using False pos big
    by (simp only: rd_def Let_def fl m u r v abs_of_nat of_nat_eq_0_iff of_nat_0_less_iff if_False if_True)
qed

lemma rd_numeral: "(numeral w :: nat) < 2 ^ 53 \<Longrightarrow> rd (numeral w) = Fin (numeral w)"
  using rd_nat [of "numeral w"] by simp

lemma rd_0: "rd 0 = Fin 0" by (simp add: rd_def)
lemma rd_1: "rd 1 = Fin 1" using rd_nat [of 1] by simp

lemma mathRound_int: "mathRound (Fin (of_int n)) = Fin (of_int n)"
proof -
  have "\<lfloor>(of_int n :: rat) + 1 / 2\<rfloor> = n" by linarith
  then show ?thesis by (simp add: mathRound_def)
qed

lemma mathRound_numeral: "mathRound (Fin (numeral w)) = Fin (numeral w)"
  using mathRound_int [of "numeral w"] by simp

lemma rd_neg: "rd (- q) = jsNeg (rd q)"
  by (simp add: rd_def Let_def jsNeg_def)

lemma rd_not_NaN: "rd q \<noteq> NaN"
  by (simp add: rd_def Let_def)

lemma mathRound_neg_numeral: "mathRound (Fin (- numeral w)) = Fin (- numeral w)"
  using mathRound_int [of "- numeral w"] by simp

subsection \<open>Running the parser on the samples\<close>

text \<open>The equations that run the parser on a concrete statement, and the runs themselves.\<close>

lemmas str_eval = js_def trim_def isWs_def jsSlice_def isDigit_def allDigits_def startsWith_def
  startsWithAny_def wordChar_def

lemmas num_eval = parseFloat_def takeSign_def digitsVal_def pow10_def exponentPart_def Let_def
  rd_numeral rd_0 rd_neg mathRound_neg_numeral jsMul_def jsSub_def jsNeg_def jsSign_def
  mathRound_numeral mathAbs_def jsGe0_def parseAmountToCents_def isBrFormat_def brTail_def
  entryType_def

lemmas host_eval = strictHost_def lenientHost_def utcHost_def strictDate_def lenientDate_def
  isoFields_def daysInMonth_def leapYear_def isoString_def padStart_def toDec.simps asciiLower_def

lemmas csv_eval = parseCsv_def csvLines_def splitRow_def normStr_def findColumns_def
  isValueHeader_def isDocHeader_def cell_def present_def ciEq_def ws1_def
  SKIP_SALDO_ANTERIOR_def SKIP_SALDO_DO_DIA_def IS_SALDO_def optField_def rowAmount_def
  rowType_def csvRow_def parseDate_def

lemmas ofx_eval = parseOfx_def closedEntry_def sgmlEntry_def ofxTransaction_def ofxAmount_def
  field_def tagAt_def isLetter_def valueChar_def asciiUpper_def ciEq_def optField_def

lemma quotedCsv_parsed:
  "parseCsv strictHost quotedCsv =
     \<lparr>transactions =
        [\<lparr>date = (2024, 3, 1), description = js ''Compra'', details = None, documentId = None,
          amountCents = Fin 111200, type = income,
          importHash = computeImportHash strictHost (js ''2024-03-01'') (js ''Compra'')
                         (Fin 111200)\<rparr>],
      balances = []\<rparr>"
  by (simp add: quotedCsv_def csv_eval str_eval num_eval host_eval)

lemma feb31Csv_strict: "parseCsv strictHost feb31Csv = \<lparr>transactions = [], balances = []\<rparr>"
  by (simp add: feb31Csv_def csv_eval str_eval num_eval host_eval)

lemma feb31Csv_lenient:
  "parseCsv lenientHost feb31Csv =
     \<lparr>transactions =
        [\<lparr>date = (2024, 3, 2), description = js ''Aluguel'', details = None, documentId = None,
          amountCents = Fin 10000, type = expense,
          importHash = computeImportHash lenientHost (js ''2024-03-02'') (js ''Aluguel'')
                         (Fin 10000)\<rparr>],
      balances = []\<rparr>"
  by (simp add: feb31Csv_def csv_eval str_eval num_eval host_eval)

lemma saldoCsv_parsed:
  "parseCsv strictHost saldoCsv =
     \<lparr>transactions = [],
      balances = [\<lparr>b_date = (2024, 3, 1), balanceCents = Fin 523400,
                   b_importHash = computeImportHash strictHost (js ''2024-03-01'') (js ''SALDO'')
                                    (Fin 523400)\<rparr>]\<rparr>"
  by (simp add: saldoCsv_def csv_eval str_eval num_eval host_eval)

lemma infCsv_parsed:
  "parseCsv strictHost infCsv =
     \<lparr>transactions =
        [\<lparr>date = (2024, 3, 1), description = js ''X'', details = None, documentId = None,
          amountCents = NaN, type = expense,
          importHash = computeImportHash strictHost (js ''2024-03-01'') (js ''X'') NaN\<rparr>],
      balances = []\<rparr>"
  by (simp add: infCsv_def csv_eval str_eval num_eval host_eval mathRound_def)

lemma closedOfx_parsed:
  "parseOfx strictHost closedOfx =
     Inr \<lparr>transactions =
          [\<lparr>date = (2024, 3, 1), description = js ''Compra Loja'', details = None,
            documentId = Some (js ''7''), amountCents = Fin 1000, type = expense,
            importHash = computeImportHash strictHost (js ''2024-03-01'') (js ''Compra Loja'')
                           (Fin 1000)\<rparr>],
         balances = []\<rparr>"
  by (simp add: closedOfx_def flatOfx_def ofx_eval str_eval num_eval host_eval)

lemma flatOfx_parsed:
  "parseOfx strictHost flatOfx =
     Inr \<lparr>transactions =
          [\<lparr>date = (2024, 3, 1), description = js ''Compra 123 Loja'', details = None,
            documentId = Some (js ''7''), amountCents = Fin 1000, type = expense,
            importHash = computeImportHash strictHost (js ''2024-03-01'') (js ''Compra 123 Loja'')
                           (Fin 1000)\<rparr>],
         balances = []\<rparr>"
  by (simp add: flatOfx_def ofx_eval str_eval num_eval host_eval)

lemma closedNameOfx_parsed:
  "parseOfx strictHost closedNameOfx =
     Inr \<lparr>transactions =
          [\<lparr>date = (2024, 3, 1), description = [], details = None,
            documentId = None, amountCents = Fin 2500, type = income,
            importHash = computeImportHash strictHost (js ''2024-03-01'') [] (Fin 2500)\<rparr>],
         balances = []\<rparr>"
  by (simp add: closedNameOfx_def flatNameOfx_def ofx_eval str_eval num_eval host_eval)

lemma flatNameOfx_parsed:
  "parseOfx strictHost flatNameOfx =
     Inr \<lparr>transactions =
          [\<lparr>date = (2024, 3, 1), description = js ''Padaria'', details = None,
            documentId = None, amountCents = Fin 2500, type = income,
            importHash = computeImportHash strictHost (js ''2024-03-01'') (js ''Padaria'')
                           (Fin 2500)\<rparr>],
         balances = []\<rparr>"
  by (simp add: flatNameOfx_def ofx_eval str_eval num_eval host_eval)

subsection \<open>The fingerprint\<close>

lemma hexDigit_hex: "n < 16 \<Longrightarrow> hexDigit n \<in> hexChars"
proof -
  have "list_all (\<lambda>k. hexDigit k \<in> hexChars) [0..<16]"
    by (simp add: upt_rec [of _ 16] upt_rec [of _ "Suc _"] hexDigit_def hexChars_def js_def)
  moreover assume "n < 16"
  ultimately show ?thesis by (simp add: list_all_iff)
qed

lemma toHex_hex: "set (toHex n) \<subseteq> hexChars"
proof (induction n rule: toHex.induct)
  case (1 n)
  show ?case
  proof (cases "n < 16")
    case True
    then show ?thesis by (simp add: toHex.simps [of n] hexDigit_hex)
  next
    case False
    have "n mod 16 < 16" by simp
    then have "hexDigit (n mod 16) \<in> hexChars" by (rule hexDigit_hex)
    with False "1.IH" show ?thesis by (simp add: toHex.simps [of n])
  qed
qed

lemma toHex_length: "n < 16 ^ Suc k \<Longrightarrow> length (toHex n) \<le> Suc k"
proof (induction k arbitrary: n)
  case 0
  then show ?case by (simp add: toHex.simps [of n])
next
  case (Suc k)
  show ?case
  proof (cases "n < 16")
    case True
    then show ?thesis by (simp add: toHex.simps [of n])
  next
    case False
    from Suc.prems have "n div 16 < 16 ^ Suc k" by (simp add: less_mult_imp_div_less mult.commute)
    then have "length (toHex (n div 16)) \<le> Suc k" by (rule Suc.IH)
    with False show ?thesis by (simp add: toHex.simps [of n])
  qed
qed

lemma hex8:
  fixes w :: "32 word"
  shows "length (padStart 8 0x30 (toHex (unat w))) = 8
       \<and> set (padStart 8 0x30 (toHex (unat w))) \<subseteq> hexChars"
proof -
  have "unat w < 2 ^ 32" using unsigned_less [of w] by simp
  then have "unat w < 16 ^ Suc 7" by simp
  then have l: "length (toHex (unat w)) \<le> 8" using toHex_length [of "unat w" 7] by simp
  have z: "(0x30 :: cu) \<in> hexChars" by (simp add: hexChars_def js_def)
  from l have "length (padStart 8 0x30 (toHex (unat w))) = 8" by (simp add: padStart_def)
  moreover have "set (padStart 8 0x30 (toHex (unat w))) \<subseteq> hexChars"
    using toHex_hex [of "unat w"] z by (auto simp: padStart_def)
  ultimately show ?thesis by simp
qed

text \<open>
  C3. \<open>computeImportHash\<close> is a function of its three arguments alone (on a given host):
  equal arguments give equal fingerprints, and every fingerprint is exactly 16 characters, each
  a lower-case hexadecimal digit.
\<close>

theorem computeImportHash_format:
  assumes "dateStr' = dateStr" and "descr' = descr" and "cents' = cents"
  shows "computeImportHash h dateStr' descr' cents' = computeImportHash h dateStr descr cents
       \<and> length (computeImportHash h dateStr descr cents) = 16
       \<and> set (computeImportHash h dateStr descr cents) \<subseteq> set (js ''0123456789abcdef'')"
proof -
  obtain a b where ab: "hashLoop (dateStr @ js ''|'' @ descr @ js ''|'' @ numberToString h cents)
                          (0xdeadbeef, 0x41c6ce57) = (a, b)"
    by (cases "hashLoop (dateStr @ js ''|'' @ descr @ js ''|'' @ numberToString h cents)
                          (0xdeadbeef, 0x41c6ce57)")
  have "length (computeImportHash h dateStr descr cents) = 16
       \<and> set (computeImportHash h dateStr descr cents) \<subseteq> hexChars"
    using hex8 by (simp add: computeImportHash_def Let_def ab)
  with assms show ?thesis by (simp add: hexChars_def)
qed

theorem computeImportHash_format_witness:
  "length (computeImportHash strictHost (js ''2024-03-01'') (js ''Supermercado'') (Fin 15000)) = 16
   \<and> set (computeImportHash strictHost (js ''2024-03-01'') (js ''Supermercado'') (Fin 15000))
       \<subseteq> set (js ''0123456789abcdef'')"
  using computeImportHash_format [of "js ''2024-03-01''" "js ''2024-03-01''" "js ''Supermercado''"
          "js ''Supermercado''" "Fin 15000" "Fin 15000" strictHost]
  by simp

subsection \<open>The tokenizer\<close>

lemma splitLoop_inside:
  "0x22 \<notin> set body \<Longrightarrow> rest = [] \<or> hd rest \<noteq> 0x22 \<Longrightarrow>
   splitLoop d (body @ 0x22 # rest) cur True res = splitLoop d rest (cur @ body) False res"
proof (induction body arbitrary: cur)
  case Nil
  then show ?case by (cases rest) auto
next
  case (Cons c body)
  then show ?case by simp
qed

lemma splitLoop_escape:
  "0x22 \<notin> set x \<Longrightarrow>
   splitLoop d (x @ 0x22 # 0x22 # rest) cur True res = splitLoop d rest (cur @ x @ [0x22]) True res"
proof (induction x arbitrary: cur)
  case Nil
  then show ?case by simp
next
  case (Cons c x)
  then show ?case by simp
qed

text \<open>
  C5. In the tokenizer a quote character, single or double, opens a quoted stretch, and
  until the next double quote that is not doubled every character, the delimiter included,
  goes into the current field: nothing is split there. Two double quotes in a row inside a
  quoted stretch put one double quote into the field and do not close it. In the
  comma-delimited row \<open>01/03/2024,Compra,"1.112,00"\<close> the amount is one field, and it is
  worth 111200 cents, also at the end of \<open>parseCsv\<close>.
\<close>

theorem splitRow_quoting:
  assumes q: "q = 0x22 \<or> q = 0x27"
    and body: "0x22 \<notin> set body" and x: "0x22 \<notin> set x" and y: "0x22 \<notin> set y"
  shows "(\<forall>rest cur res. (rest = [] \<or> hd rest \<noteq> 0x22) \<longrightarrow>
            splitLoop d (q # body @ 0x22 # rest) cur False res
              = splitLoop d rest (cur @ body) False res)
       \<and> splitRow d (q # body @ [0x22]) = [trim body]
       \<and> splitRow d (q # x @ [0x22, 0x22] @ y @ [0x22]) = [trim (x @ [0x22] @ y)]
       \<and> splitRow 0x2C (js ''01/03/2024,Compra,'' @ [0x22] @ js ''1.112,00'' @ [0x22])
            = [js ''01/03/2024'', js ''Compra'', js ''1.112,00'']
       \<and> parseAmountToCents (js ''1.112,00'') = Fin 111200
       \<and> map amountCents (transactions (parseCsv strictHost quotedCsv)) = [Fin 111200]"
proof -
  have quote_opens: "splitLoop d (q # s) cur False res = splitLoop d s cur True res" for s cur res
    using q by auto
  have a: "splitLoop d (q # body @ 0x22 # rest) cur False res
              = splitLoop d rest (cur @ body) False res"
    if "rest = [] \<or> hd rest \<noteq> 0x22" for rest cur res
    using splitLoop_inside [OF body that] by (simp only: quote_opens)
  have b: "splitRow d (q # body @ [0x22]) = [trim body]"
    using a [of "[]" "[]" "[]"] by (simp add: splitRow_def)
  have "splitLoop d (q # x @ 0x22 # 0x22 # y @ 0x22 # []) [] False []
          = splitLoop d (y @ 0x22 # []) ([] @ x @ [0x22]) True []"
    using splitLoop_escape [OF x] by (simp only: quote_opens)
  also have "\<dots> = splitLoop d [] (([] @ x @ [0x22]) @ y) False []"
    using splitLoop_inside [OF y, of "[]"] by simp
  finally have c: "splitRow d (q # x @ [0x22, 0x22] @ y @ [0x22]) = [trim (x @ [0x22] @ y)]"
    by (simp add: splitRow_def)
  have d: "splitRow 0x2C (js ''01/03/2024,Compra,'' @ [0x22] @ js ''1.112,00'' @ [0x22])
            = [js ''01/03/2024'', js ''Compra'', js ''1.112,00'']"
    by (simp add: splitRow_def str_eval)
  have e: "parseAmountToCents (js ''1.112,00'') = Fin 111200"
    by (simp add: num_eval str_eval)
  have f: "map amountCents (transactions (parseCsv strictHost quotedCsv)) = [Fin 111200]"
    by (simp add: quotedCsv_parsed)
  from a b c d e f show ?thesis by blast
qed

theorem splitRow_quoting_witness:
  "splitRow 0x3B ([0x27] @ js ''Pagto; ref 12'' @ [0x22]) = [js ''Pagto; ref 12'']
   \<and> splitRow 0x3B ([0x27] @ js ''Loja '' @ [0x22, 0x22] @ js ''A;B'' @ [0x22])
        = [js ''Loja '' @ [0x22] @ js ''A;B'']
   \<and> splitLoop 0x3B ([0x27] @ js ''a;b'' @ [0x22] @ js '';c'') [] False []
        = [js ''a;b'', js ''c'']"
proof -
  have q: "(0x27 :: cu) = 0x22 \<or> (0x27 :: cu) = 0x27" by simp
  have b: "0x22 \<notin> set (js ''Pagto; ref 12'')" by (simp add: js_def)
  have x: "0x22 \<notin> set (js ''Loja '')" by (simp add: js_def)
  have y: "0x22 \<notin> set (js ''A;B'')" by (simp add: js_def)
  have r: "js '';c'' = [] \<or> hd (js '';c'') \<noteq> 0x22" by (simp add: js_def)
  have b2: "0x22 \<notin> set (js ''a;b'')" by (simp add: js_def)
  note t1 = splitRow_quoting [OF q b x y, of "0x3B"]
  note t2 = splitRow_quoting [OF q b2 x y, of "0x3B"]
  from t1 have "splitRow 0x3B (0x27 # js ''Pagto; ref 12'' @ [0x22]) = [trim (js ''Pagto; ref 12'')]"
    by blast
  moreover from t1 have "splitRow 0x3B (0x27 # js ''Loja '' @ [0x22, 0x22] @ js ''A;B'' @ [0x22])
      = [trim (js ''Loja '' @ [0x22] @ js ''A;B'')]"
    by blast
  moreover from t2 r have "splitLoop 0x3B (0x27 # js ''a;b'' @ 0x22 # js '';c'') [] False []
      = splitLoop 0x3B (js '';c'') ([] @ js ''a;b'') False []"
    by blast
  ultimately show ?thesis by (simp add: str_eval)
qed

subsection \<open>Dates\<close>

lemma parseDate_zero:
  assumes "length dd = 2" "length mm = 2" "length yyyy = 4"
    and "dd = js ''00'' \<or> mm = js ''00''"
    and "trim raw = dd @ js ''/'' @ mm @ js ''/'' @ yyyy"
  shows "parseDate h raw = None"
  using assms
  by (auto simp: parseDate_def jsSlice_def js_def allDigits_def isDigit_def Let_def nth_append)

text \<open>
  X1. What the parser does with a date that is no day of the calendar, on every host. A
  \<open>DD/MM/YYYY\<close> field with a day or month of \<open>00\<close>, such as \<open>00/00/0000\<close>, gives no date:
  the row is discarded and the statement stays as it was. For \<open>31/02/2024\<close> the parser checks no calendar: it asks the host
  for \<open>new Date("2024-02-31T12:00:00")\<close>, and discards the row when the host calls that date
  invalid.
\<close>

theorem csvRow_date_rejection:
  "(\<forall>dd mm yyyy raw.
       length dd = 2 \<and> length mm = 2 \<and> length yyyy = 4 \<and> (dd = js ''00'' \<or> mm = js ''00'')
       \<and> trim raw = dd @ js ''/'' @ mm @ js ''/'' @ yyyy \<longrightarrow> parseDate h raw = None)
   \<and> (trim (cell cols (dateIdx ix)) = js ''00/00/0000'' \<longrightarrow> csvRow h ix cols = Discard)
   \<and> parseDate h (js ''31/02/2024'') = newDate h (js ''2024-02-31T12:00:00'')
   \<and> (trim (cell cols (dateIdx ix)) = js ''31/02/2024'' \<longrightarrow>
        newDate h (js ''2024-02-31T12:00:00'') = None \<longrightarrow> csvRow h ix cols = Discard)
   \<and> (csvRow h ix (splitRow delimiter line) = Discard \<longrightarrow>
        csvLoop h delimiter ix (line # rest) acc = csvLoop h delimiter ix rest acc)"
proof -
  have z: "parseDate h raw = None"
    if "length dd = 2 \<and> length mm = 2 \<and> length yyyy = 4 \<and> (dd = js ''00'' \<or> mm = js ''00'')
       \<and> trim raw = dd @ js ''/'' @ mm @ js ''/'' @ yyyy" for dd mm yyyy raw
    using that parseDate_zero [of dd mm yyyy raw h] by blast
  have a: "csvRow h ix cols = Discard" if "trim (cell cols (dateIdx ix)) = js ''00/00/0000''"
  proof -
    have "parseDate h (cell cols (dateIdx ix)) = None"
      using that by (simp add: parseDate_def str_eval)
    then show ?thesis by (simp add: csvRow_def)
  qed
  have b: "parseDate h (js ''31/02/2024'') = newDate h (js ''2024-02-31T12:00:00'')"
    by (simp add: parseDate_def str_eval)
  have c: "csvRow h ix cols = Discard"
    if "trim (cell cols (dateIdx ix)) = js ''31/02/2024''"
      and "newDate h (js ''2024-02-31T12:00:00'') = None"
  proof -
    have "parseDate h (cell cols (dateIdx ix)) = newDate h (js ''2024-02-31T12:00:00'')"
      using that(1) by (simp add: parseDate_def str_eval)
    with that(2) show ?thesis by (simp add: csvRow_def)
  qed
  have d: "csvLoop h delimiter ix (line # rest) acc = csvLoop h delimiter ix rest acc"
    if "csvRow h ix (splitRow delimiter line) = Discard"
    using that by simp
  from z a b c d show ?thesis by blast
qed

theorem csvRow_date_rejection_witness:
  "csvRow strictHost dateDescValue [js ''00/00/0000'', js ''Aluguel'', js ''-100,00''] = Discard
   \<and> csvRow strictHost dateDescValue [js ''31/02/2024'', js ''Aluguel'', js ''-100,00''] = Discard
   \<and> parseDate strictHost (js ''15/00/2024'') = None"
proof -
  have z: "trim (cell [js ''00/00/0000'', js ''Aluguel'', js ''-100,00''] (dateIdx dateDescValue))
            = js ''00/00/0000''"
    by (simp add: dateDescValue_def cell_def str_eval)
  have f: "trim (cell [js ''31/02/2024'', js ''Aluguel'', js ''-100,00''] (dateIdx dateDescValue))
            = js ''31/02/2024''"
    by (simp add: dateDescValue_def cell_def str_eval)
  have n: "newDate strictHost (js ''2024-02-31T12:00:00'') = None"
    by (simp add: host_eval str_eval digitsVal_def)
  have m: "length (js ''15'') = 2 \<and> length (js ''00'') = 2 \<and> length (js ''2024'') = 4
       \<and> (js ''15'' = js ''00'' \<or> js ''00'' = js ''00'')
       \<and> trim (js ''15/00/2024'') = js ''15'' @ js ''/'' @ js ''00'' @ js ''/'' @ js ''2024''"
    by (simp add: str_eval)
  from z f n m
    csvRow_date_rejection
      [of strictHost "[js ''00/00/0000'', js ''Aluguel'', js ''-100,00'']" dateDescValue]
    csvRow_date_rejection
      [of strictHost "[js ''31/02/2024'', js ''Aluguel'', js ''-100,00'']" dateDescValue]
  show ?thesis by blast
qed

text \<open>
  C6 fails on the code where the host rolls a day past the end of the month over, as V8
  does: the row dated \<open>31/02/2024\<close> is not discarded, it becomes a transaction dated the second
  of March. (On the strict host the same statement gives nothing.)
\<close>

theorem parseCsv_feb31_emitted:
  "parseCsv lenientHost feb31Csv =
     \<lparr>transactions =
        [\<lparr>date = (2024, 3, 2), description = js ''Aluguel'', details = None, documentId = None,
          amountCents = Fin 10000, type = expense,
          importHash = computeImportHash lenientHost (js ''2024-03-02'') (js ''Aluguel'')
                         (Fin 10000)\<rparr>],
      balances = []\<rparr>
   \<and> parseCsv strictHost feb31Csv = \<lparr>transactions = [], balances = []\<rparr>"
  using feb31Csv_lenient feb31Csv_strict by simp

subsection \<open>Balance rows\<close>

lemma IS_SALDO_not_skipped:
  assumes "IS_SALDO s"
  shows "\<not> SKIP_SALDO_ANTERIOR s \<and> \<not> SKIP_SALDO_DO_DIA s"
proof (cases s)
  case Nil
  with assms show ?thesis by (simp add: IS_SALDO_def js_def)
next
  case (Cons c r)
  show ?thesis
  proof (cases r)
    case Nil
    with Cons assms show ?thesis by (simp add: IS_SALDO_def js_def ws1_def split: if_splits)
  next
    case (Cons c2 r2)
    with \<open>s = c # r\<close> assms have "isWs c2"
      by (simp add: IS_SALDO_def js_def ws1_def split: if_splits)
    then have "\<not> ciEq 0x61 c2" by (auto simp: ciEq_def isWs_def)
    with Cons \<open>s = c # r\<close> show ?thesis
      by (simp add: SKIP_SALDO_ANTERIOR_def SKIP_SALDO_DO_DIA_def js_def)
  qed
qed

text \<open>
  C8. In \<open>parseCsv\<close> a row whose description matches \<open>/^saldo\s+anterior/i\<close> is discarded:
  it gives neither a transaction nor a balance, and \<open>Saldo Anterior\<close> is such a description.
  A row with a valid date whose description matches the letter-spaced \<open>/^s\s+a\s+l\s+d\s+o/i\<close>
  gives a balance record and no transaction: its value is the signed-amount cell when that
  column exists and the cell is not empty, else the credit cell, else zero, and its
  fingerprint is \<open>computeImportHash\<close> of the date, the word \<open>SALDO\<close> and that value.
\<close>

theorem csvRow_saldo:
  "(SKIP_SALDO_ANTERIOR (cell cols (descIdx ix)) \<longrightarrow> csvRow h ix cols = Discard)
   \<and> SKIP_SALDO_ANTERIOR (js ''Saldo Anterior'')
   \<and> IS_SALDO (js ''S A L D O'')
   \<and> (parseDate h (cell cols (dateIdx ix)) = Some d \<longrightarrow> IS_SALDO (cell cols (descIdx ix)) \<longrightarrow>
        csvRow h ix cols =
          BalanceRow
            \<lparr> b_date = d,
              balanceCents =
                (if present cols (valueIdx ix) then parseAmountToCents (cell cols (valueIdx ix))
                 else if present cols (creditIdx ix)
                 then parseAmountToCents (cell cols (creditIdx ix))
                 else Fin 0),
              b_importHash =
                computeImportHash h (jsSlice 0 10 (toISOString h d)) (js ''SALDO'')
                  (if present cols (valueIdx ix) then parseAmountToCents (cell cols (valueIdx ix))
                   else if present cols (creditIdx ix)
                   then parseAmountToCents (cell cols (creditIdx ix))
                   else Fin 0) \<rparr>)
   \<and> (csvRow h ix (splitRow delimiter line) = BalanceRow b \<longrightarrow>
        csvLoop h delimiter ix (line # rest) acc
          = csvLoop h delimiter ix rest (acc\<lparr>balances := balances acc @ [b]\<rparr>))
   \<and> (csvRow h ix (splitRow delimiter line) = Discard \<longrightarrow>
        csvLoop h delimiter ix (line # rest) acc = csvLoop h delimiter ix rest acc)
   \<and> parseCsv strictHost saldoCsv =
        \<lparr>transactions = [],
         balances = [\<lparr>b_date = (2024, 3, 1), balanceCents = Fin 523400,
                      b_importHash = computeImportHash strictHost (js ''2024-03-01'')
                                       (js ''SALDO'') (Fin 523400)\<rparr>]\<rparr>"
proof -
  have a: "csvRow h ix cols = Discard" if "SKIP_SALDO_ANTERIOR (cell cols (descIdx ix))"
    using that by (simp add: csvRow_def Let_def split: option.splits)
  have b: "SKIP_SALDO_ANTERIOR (js ''Saldo Anterior'')"
    by (simp add: SKIP_SALDO_ANTERIOR_def js_def ciEq_def ws1_def isWs_def)
  have c: "IS_SALDO (js ''S A L D O'')"
    by (simp add: IS_SALDO_def js_def ciEq_def ws1_def isWs_def)
  have d: "csvRow h ix cols =
          BalanceRow
            \<lparr> b_date = d,
              balanceCents =
                (if present cols (valueIdx ix) then parseAmountToCents (cell cols (valueIdx ix))
                 else if present cols (creditIdx ix)
                 then parseAmountToCents (cell cols (creditIdx ix))
                 else Fin 0),
              b_importHash =
                computeImportHash h (jsSlice 0 10 (toISOString h d)) (js ''SALDO'')
                  (if present cols (valueIdx ix) then parseAmountToCents (cell cols (valueIdx ix))
                   else if present cols (creditIdx ix)
                   then parseAmountToCents (cell cols (creditIdx ix))
                   else Fin 0) \<rparr>"
    if "parseDate h (cell cols (dateIdx ix)) = Some d" "IS_SALDO (cell cols (descIdx ix))"
    using that IS_SALDO_not_skipped [OF that(2)] by (simp add: csvRow_def Let_def)
  have e: "csvLoop h delimiter ix (line # rest) acc
          = csvLoop h delimiter ix rest (acc\<lparr>balances := balances acc @ [b]\<rparr>)"
    if "csvRow h ix (splitRow delimiter line) = BalanceRow b"
    using that by simp
  have f: "csvLoop h delimiter ix (line # rest) acc = csvLoop h delimiter ix rest acc"
    if "csvRow h ix (splitRow delimiter line) = Discard"
    using that by simp
  have g: "parseCsv strictHost saldoCsv =
        \<lparr>transactions = [],
         balances = [\<lparr>b_date = (2024, 3, 1), balanceCents = Fin 523400,
                      b_importHash = computeImportHash strictHost (js ''2024-03-01'')
                                       (js ''SALDO'') (Fin 523400)\<rparr>]\<rparr>"
    by (rule saldoCsv_parsed)
  from a b c d e f g show ?thesis by blast
qed

theorem csvRow_saldo_witness:
  "csvRow strictHost dateDescValue [js ''29/02/2024'', js ''Saldo Anterior'', js ''1.000,00''] = Discard
   \<and> csvRow strictHost dateDescValue [js ''01/03/2024'', js ''S A L D O'', js ''5.234,00'']
       = BalanceRow \<lparr>b_date = (2024, 3, 1), balanceCents = Fin 523400,
                      b_importHash = computeImportHash strictHost (js ''2024-03-01'')
                                       (js ''SALDO'') (Fin 523400)\<rparr>"
proof -
  let ?r1 = "[js ''29/02/2024'', js ''Saldo Anterior'', js ''1.000,00'']"
  let ?r2 = "[js ''01/03/2024'', js ''S A L D O'', js ''5.234,00'']"
  have s1: "SKIP_SALDO_ANTERIOR (cell ?r1 (descIdx dateDescValue))"
    by (simp add: dateDescValue_def cell_def SKIP_SALDO_ANTERIOR_def js_def ciEq_def ws1_def isWs_def)
  have s2: "IS_SALDO (cell ?r2 (descIdx dateDescValue))"
    by (simp add: dateDescValue_def cell_def IS_SALDO_def js_def ciEq_def ws1_def isWs_def)
  have d2: "parseDate strictHost (cell ?r2 (dateIdx dateDescValue)) = Some (2024, 3, 1)"
    by (simp add: dateDescValue_def cell_def parseDate_def str_eval host_eval digitsVal_def)
  have v: "present ?r2 (valueIdx dateDescValue)"
      "parseAmountToCents (cell ?r2 (valueIdx dateDescValue)) = Fin 523400"
    by (simp_all add: dateDescValue_def cell_def present_def str_eval num_eval)
  have i: "jsSlice 0 10 (toISOString strictHost (2024, 3, 1)) = js ''2024-03-01''"
    by (simp add: host_eval str_eval)
  from csvRow_saldo [of ?r1 dateDescValue strictHost] s1
  have "csvRow strictHost dateDescValue ?r1 = Discard" by blast
  moreover from csvRow_saldo [of ?r2 dateDescValue strictHost "(2024, 3, 1)"] s2 d2
  have "csvRow strictHost dateDescValue ?r2 =
          BalanceRow
            \<lparr> b_date = (2024, 3, 1),
              balanceCents =
                (if present ?r2 (valueIdx dateDescValue)
                 then parseAmountToCents (cell ?r2 (valueIdx dateDescValue))
                 else if present ?r2 (creditIdx dateDescValue)
                 then parseAmountToCents (cell ?r2 (creditIdx dateDescValue))
                 else Fin 0),
              b_importHash =
                computeImportHash strictHost (jsSlice 0 10 (toISOString strictHost (2024, 3, 1)))
                  (js ''SALDO'')
                  (if present ?r2 (valueIdx dateDescValue)
                   then parseAmountToCents (cell ?r2 (valueIdx dateDescValue))
                   else if present ?r2 (creditIdx dateDescValue)
                   then parseAmountToCents (cell ?r2 (creditIdx dateDescValue))
                   else Fin 0) \<rparr>"
    by blast
  ultimately show ?thesis by (simp only: v i if_True simp_thms)
qed

subsection \<open>Amounts and types\<close>

lemma jsMul_100_not_NaN: "v \<noteq> NaN \<Longrightarrow> jsMul v (Fin 100) \<noteq> NaN"
  by (cases v) (simp_all add: jsMul_def jsSign_def rd_not_NaN)

lemma mathRound_not_NaN: "x \<noteq> NaN \<Longrightarrow> mathRound x \<noteq> NaN"
  by (cases x) (simp_all add: mathRound_def)

lemma jsNeg_not_NaN: "x \<noteq> NaN \<Longrightarrow> jsNeg x \<noteq> NaN"
  by (cases x) (simp_all add: jsNeg_def)

lemma parseAmountToCents_not_NaN: "parseAmountToCents raw \<noteq> NaN"
  by (simp add: parseAmountToCents_def Let_def jsNeg_not_NaN mathRound_not_NaN jsMul_100_not_NaN)

lemma ofxAmount_not_NaN: "ofxAmount flds \<noteq> NaN"
  by (simp add: ofxAmount_def Let_def mathRound_not_NaN jsMul_100_not_NaN)

lemma mathAbs_ge0: "x \<noteq> NaN \<Longrightarrow> jsGe0 (mathAbs x)"
  by (cases x) (simp_all add: mathAbs_def jsGe0_def)

lemma entryType_cases: "entryType c = income \<or> entryType c = expense"
  by (simp add: entryType_def)

lemma jsSub_NaN:
  "x \<noteq> NaN \<Longrightarrow> y \<noteq> NaN \<Longrightarrow> jsSub x y = NaN \<Longrightarrow> x = y \<and> (x = PInf \<or> x = NInf)"
  by (cases x; cases y) (simp_all add: jsSub_def jsNeg_def rd_not_NaN)

lemma rowAmount_NaN:
  assumes "rowAmount ix cols = NaN"
  shows "\<not> present cols (valueIdx ix) \<and> present cols (debitIdx ix) \<and> present cols (creditIdx ix)
       \<and> parseAmountToCents (cell cols (creditIdx ix)) = parseAmountToCents (cell cols (debitIdx ix))
       \<and> (parseAmountToCents (cell cols (creditIdx ix)) = PInf
            \<or> parseAmountToCents (cell cols (creditIdx ix)) = NInf)"
proof -
  let ?d = "if present cols (debitIdx ix) then parseAmountToCents (cell cols (debitIdx ix)) else Fin 0"
  let ?c = "if present cols (creditIdx ix) then parseAmountToCents (cell cols (creditIdx ix)) else Fin 0"
  from assms have v: "\<not> present cols (valueIdx ix)"
    using parseAmountToCents_not_NaN by (auto simp: rowAmount_def split: if_splits)
  with assms have s: "jsSub ?c ?d = NaN"
    by (auto simp: rowAmount_def Let_def split: if_splits)
  have "?c \<noteq> NaN" "?d \<noteq> NaN" by (simp_all add: parseAmountToCents_not_NaN)
  from jsSub_NaN [OF this s] have e: "?c = ?d" and i: "?c = PInf \<or> ?c = NInf" by blast+
  from i have pc: "present cols (creditIdx ix)" by (auto split: if_splits)
  from e i have pd: "present cols (debitIdx ix)" by (auto split: if_splits)
  from v pc pd e i show ?thesis by simp
qed

lemma csvRow_transaction:
  assumes "csvRow h ix cols = TransactionRow t"
  shows "(type t = income \<or> type t = expense) \<and> amountCents t = mathAbs (rowAmount ix cols)"
proof -
  have ty: "rowType h ix cols c = income \<or> rowType h ix cols c = expense" for c
    using entryType_cases [of c] by (auto simp: rowType_def Let_def)
  from assms ty [of "rowAmount ix cols"] show ?thesis
    by (auto simp: csvRow_def Let_def split: option.splits if_splits)
qed

lemma csvRow_typed: "csvRow h ix cols = TransactionRow t \<Longrightarrow> typed t"
proof -
  assume a: "csvRow h ix cols = TransactionRow t"
  note r = csvRow_transaction [OF a]
  show ?thesis
  proof (cases "rowAmount ix cols = NaN")
    case True
    with r show ?thesis by (simp add: typed_def mathAbs_def)
  next
    case False
    then have "jsGe0 (mathAbs (rowAmount ix cols))" by (rule mathAbs_ge0)
    with r show ?thesis by (simp add: typed_def)
  qed
qed

lemma csvLoop_typed:
  "list_all typed (transactions acc) \<Longrightarrow>
   list_all typed (transactions (csvLoop h delimiter ix lines acc))"
proof (induction lines arbitrary: acc)
  case Nil
  then show ?case by simp
next
  case (Cons line lines)
  show ?case
  proof (cases "csvRow h ix (splitRow delimiter line)")
    case Discard
    with Cons show ?thesis by simp
  next
    case (BalanceRow b)
    with Cons show ?thesis by simp
  next
    case (TransactionRow t)
    then have "typed t" by (rule csvRow_typed)
    with Cons.prems
    have "list_all typed (transactions (acc\<lparr>transactions := transactions acc @ [t]\<rparr>))"
      by simp
    then have "list_all typed (transactions (csvLoop h delimiter ix lines
                 (acc\<lparr>transactions := transactions acc @ [t]\<rparr>)))"
      by (rule Cons.IH)
    with TransactionRow show ?thesis by simp
  qed
qed

text \<open>
  X2. Amounts and types of \<open>parseCsv\<close>: every transaction it emits has type income or expense,
  and an amount that is not negative or else NaN; and the amount of a row is NaN only when
  the row has no signed value and its debit and credit cells stand for the same infinity.
\<close>

theorem parseCsv_typed:
  "(t \<in> set (transactions (parseCsv h input)) \<longrightarrow>
      (type t = income \<or> type t = expense) \<and> (amountCents t = NaN \<or> jsGe0 (amountCents t)))
   \<and> (csvRow h ix cols = TransactionRow u \<longrightarrow> amountCents u = NaN \<longrightarrow>
        \<not> present cols (valueIdx ix) \<and> present cols (debitIdx ix) \<and> present cols (creditIdx ix)
        \<and> parseAmountToCents (cell cols (creditIdx ix)) = parseAmountToCents (cell cols (debitIdx ix))
        \<and> (parseAmountToCents (cell cols (creditIdx ix)) = PInf
             \<or> parseAmountToCents (cell cols (creditIdx ix)) = NInf))"
proof -
  have "list_all typed (transactions (parseCsv h input))"
    by (auto simp: parseCsv_def Let_def intro: csvLoop_typed)
  then have a: "typed t" if "t \<in> set (transactions (parseCsv h input))"
    using that by (simp add: list_all_iff)
  have b: "\<not> present cols (valueIdx ix) \<and> present cols (debitIdx ix) \<and> present cols (creditIdx ix)
        \<and> parseAmountToCents (cell cols (creditIdx ix)) = parseAmountToCents (cell cols (debitIdx ix))
        \<and> (parseAmountToCents (cell cols (creditIdx ix)) = PInf
             \<or> parseAmountToCents (cell cols (creditIdx ix)) = NInf)"
    if "csvRow h ix cols = TransactionRow u" "amountCents u = NaN"
  proof -
    from csvRow_transaction [OF that(1)] that(2) have "mathAbs (rowAmount ix cols) = NaN" by simp
    then have "rowAmount ix cols = NaN" by (cases "rowAmount ix cols") (simp_all add: mathAbs_def)
    then show ?thesis by (rule rowAmount_NaN)
  qed
  from a b show ?thesis unfolding typed_def by blast
qed

theorem parseCsv_typed_witness:
  "type \<lparr>date = (2024, 3, 1) :: ymd, description = js ''Compra'', details = None, documentId = None,
          amountCents = Fin 111200, type = income,
          importHash = computeImportHash strictHost (js ''2024-03-01'') (js ''Compra'')
                         (Fin 111200)\<rparr> = income
   \<and> jsGe0 (Fin 111200)"
proof -
  let ?t = "\<lparr>date = (2024, 3, 1) :: ymd, description = js ''Compra'', details = None, documentId = None,
          amountCents = Fin 111200, type = income,
          importHash = computeImportHash strictHost (js ''2024-03-01'') (js ''Compra'')
                         (Fin 111200)\<rparr>"
  have "?t \<in> set (transactions (parseCsv strictHost quotedCsv))"
    by (simp add: quotedCsv_parsed)
  with parseCsv_typed [of ?t strictHost quotedCsv]
  have "(type ?t = income \<or> type ?t = expense) \<and> (amountCents ?t = NaN \<or> jsGe0 (amountCents ?t))"
    by blast
  then show ?thesis by simp
qed

text \<open>
  C4 fails on the code. With separate debit and credit columns the amount is
  \<open>credit - debit\<close>; when both cells read \<open>Infinity\<close> the difference is NaN, \<open>Math.abs\<close> keeps
  it, and the transaction is emitted with an amount for which \<open>amountCents >= 0\<close> is false.
\<close>

theorem parseCsv_nan_amount:
  "parseCsv strictHost infCsv =
     \<lparr>transactions =
        [\<lparr>date = (2024, 3, 1), description = js ''X'', details = None, documentId = None,
          amountCents = NaN, type = expense,
          importHash = computeImportHash strictHost (js ''2024-03-01'') (js ''X'') NaN\<rparr>],
      balances = []\<rparr>
   \<and> \<not> jsGe0 NaN"
  using infCsv_parsed by (simp add: jsGe0_def)

subsection \<open>The OFX parser\<close>

lemma ofxTransaction_wellFormed:
  "ofxTransaction h flds descr = Inr (Some t) \<Longrightarrow> wellFormed t"
  using mathAbs_ge0 [OF ofxAmount_not_NaN, of flds] entryType_cases [of "ofxAmount flds"]
  by (auto simp: ofxTransaction_def Let_def wellFormed_def split: if_splits option.splits)

lemma closedEntry_wellFormed: "closedEntry h body = Inr (Some t) \<Longrightarrow> wellFormed t"
  by (auto simp: closedEntry_def Let_def split: if_splits dest: ofxTransaction_wellFormed)

lemma sgmlEntry_wellFormed: "sgmlEntry h body = Inr (Some t) \<Longrightarrow> wellFormed t"
  by (auto simp: sgmlEntry_def Let_def split: if_splits dest: ofxTransaction_wellFormed)

lemma ofxLoop_wellFormed:
  assumes "\<And>body t. entry body = Inr (Some t) \<Longrightarrow> wellFormed t"
  shows "ofxLoop entry blocks acc = Inr txs \<Longrightarrow> list_all wellFormed acc
           \<Longrightarrow> list_all wellFormed txs"
proof (induction blocks arbitrary: acc)
  case Nil
  then show ?case by simp
next
  case (Cons body blocks)
  show ?case
  proof (cases "entry body")
    case (Inl e)
    with Cons.prems show ?thesis by simp
  next
    case (Inr r)
    show ?thesis
    proof (cases r)
      case None
      with Inr Cons show ?thesis by simp
    next
      case (Some t)
      with Inr have "wellFormed t" using assms by simp
      with Cons.prems(2) have "list_all wellFormed (acc @ [t])" by simp
      moreover from Cons.prems(1) Inr Some
      have "ofxLoop entry blocks (acc @ [t]) = Inr txs" by simp
      ultimately show ?thesis by (rule Cons.IH [rotated])
    qed
  qed
qed

text \<open>
  X3. Amounts and types of \<open>parseOfx\<close>: when it returns, every transaction has an amount that is
  not negative and a type that is income or expense, and there are no balances.
\<close>

theorem parseOfx_wellFormed:
  assumes "parseOfx h input = Inr r" and "t \<in> set (transactions r)"
  shows "jsGe0 (amountCents t) \<and> (type t = income \<or> type t = expense) \<and> balances r = []"
proof -
  from assms(1) obtain txs where r: "r = \<lparr>transactions = txs, balances = []\<rparr>"
    and l: "ofxLoop (closedEntry h) (closedBlocks input) [] = Inr txs
         \<or> ofxLoop (sgmlEntry h) (sgmlBlocks input) [] = Inr txs"
    by (auto simp: parseOfx_def split: sum.splits if_splits)
  from l have "list_all wellFormed txs"
  proof
    assume "ofxLoop (closedEntry h) (closedBlocks input) [] = Inr txs"
    with ofxLoop_wellFormed
           [of "closedEntry h" "closedBlocks input" "[]" txs, OF closedEntry_wellFormed]
    show ?thesis by simp
  next
    assume "ofxLoop (sgmlEntry h) (sgmlBlocks input) [] = Inr txs"
    with ofxLoop_wellFormed
           [of "sgmlEntry h" "sgmlBlocks input" "[]" txs, OF sgmlEntry_wellFormed]
    show ?thesis by simp
  qed
  with assms(2) r show ?thesis by (auto simp: list_all_iff wellFormed_def)
qed

theorem parseOfx_wellFormed_witness:
  "jsGe0 (Fin 1000)
   \<and> type \<lparr>date = (2024, 3, 1) :: ymd, description = js ''Compra 123 Loja'', details = None,
            documentId = Some (js ''7''), amountCents = Fin 1000, type = expense,
            importHash = computeImportHash strictHost (js ''2024-03-01'') (js ''Compra 123 Loja'')
                           (Fin 1000)\<rparr> = expense"
proof -
  let ?t = "\<lparr>date = (2024, 3, 1) :: ymd, description = js ''Compra 123 Loja'', details = None,
            documentId = Some (js ''7''), amountCents = Fin 1000, type = expense,
            importHash = computeImportHash strictHost (js ''2024-03-01'') (js ''Compra 123 Loja'')
                           (Fin 1000)\<rparr>"
  have "?t \<in> set (transactions \<lparr>transactions = [?t], balances = []\<rparr>)" by simp
  from parseOfx_wellFormed [OF flatOfx_parsed this]
  show ?thesis by simp
qed

text \<open>
  C7 fails on the code. The two passes do not extract the description alike: the closed-tag
  pass takes the memo with every run of digits that a non-word character follows removed,
  and never falls back to the name or the transaction id; the flat pass takes the memo as it
  is, else the name, else the transaction id. The same block therefore gives two
  descriptions, and two fingerprints, depending on whether its closing tag is there.
\<close>

theorem parseOfx_dialects_differ:
  "parseOfx strictHost closedOfx =
     Inr \<lparr>transactions =
          [\<lparr>date = (2024, 3, 1), description = js ''Compra Loja'', details = None,
            documentId = Some (js ''7''), amountCents = Fin 1000, type = expense,
            importHash = computeImportHash strictHost (js ''2024-03-01'') (js ''Compra Loja'')
                           (Fin 1000)\<rparr>],
         balances = []\<rparr>
   \<and> parseOfx strictHost flatOfx =
     Inr \<lparr>transactions =
          [\<lparr>date = (2024, 3, 1), description = js ''Compra 123 Loja'', details = None,
            documentId = Some (js ''7''), amountCents = Fin 1000, type = expense,
            importHash = computeImportHash strictHost (js ''2024-03-01'') (js ''Compra 123 Loja'')
                           (Fin 1000)\<rparr>],
         balances = []\<rparr>
   \<and> parseOfx strictHost closedNameOfx =
     Inr \<lparr>transactions =
          [\<lparr>date = (2024, 3, 1), description = [], details = None,
            documentId = None, amountCents = Fin 2500, type = income,
            importHash = computeImportHash strictHost (js ''2024-03-01'') [] (Fin 2500)\<rparr>],
         balances = []\<rparr>
   \<and> parseOfx strictHost flatNameOfx =
     Inr \<lparr>transactions =
          [\<lparr>date = (2024, 3, 1), description = js ''Padaria'', details = None,
            documentId = None, amountCents = Fin 2500, type = income,
            importHash = computeImportHash strictHost (js ''2024-03-01'') (js ''Padaria'')
                           (Fin 2500)\<rparr>],
         balances = []\<rparr>"
  using closedOfx_parsed flatOfx_parsed closedNameOfx_parsed flatNameOfx_parsed
  by (simp only: simp_thms)

subsection \<open>The reconciler\<close>

lemma addHashes_eq:
  "addHashes snap ex = ex \<union> {h. h \<noteq> [] \<and> Some h \<in> d_importHash ` set snap}"
  unfolding addHashes_def
proof (induction snap arbitrary: ex)
  case Nil
  then show ?case by simp
next
  case (Cons d snap)
  show ?case
    by (cases "d_importHash d") (auto simp: Cons.IH)
qed

lemma slice_chunk:
  "i < length xs \<Longrightarrow> 0 < n \<Longrightarrow> jsSlice i (i + n) xs \<noteq> [] \<and> length (jsSlice i (i + n) xs) \<le> n"
  by (simp add: jsSlice_def)

lemma set_drop_chunk:
  "set (drop i xs) = set (jsSlice i (i + n) xs) \<union> set (drop (i + n) xs)"
proof -
  have "drop i xs = take n (drop i xs) @ drop n (drop i xs)"
    by (rule append_take_drop_id [symmetric])
  then have "set (drop i xs) = set (take n (drop i xs)) \<union> set (drop n (drop i xs))"
    by (metis set_append)
  then show ?thesis by (simp add: jsSlice_def add.commute)
qed

lemma in_snapshot:
  "Some h \<in> d_importHash ` set (filter (\<lambda>d. case d_importHash d of None \<Rightarrow> False | Some h \<Rightarrow> h \<in> set chunk) col) \<longleftrightarrow>
        h \<in> set chunk \<and> Some h \<in> d_importHash ` set col"
  (is "?l \<longleftrightarrow> ?r")
proof
  assume ?l
  then obtain d where
    m: "d \<in> set (filter (\<lambda>d. case d_importHash d of None \<Rightarrow> False | Some h \<Rightarrow> h \<in> set chunk) col)"
    and e: "Some h = d_importHash d"
    by (rule imageE)
  from e have e': "d_importHash d = Some h" by (rule sym)
  from m have c: "d \<in> set col" by simp
  from m have "case d_importHash d of None \<Rightarrow> False | Some h \<Rightarrow> h \<in> set chunk" by simp
  then have "h \<in> set chunk" by (simp add: e')
  moreover from c e have "Some h \<in> d_importHash ` set col" by (rule image_eqI [rotated])
  ultimately show ?r by simp
next
  assume r: ?r
  then have h: "h \<in> set chunk" by simp
  from r have "Some h \<in> d_importHash ` set col" by simp
  then obtain d where c: "d \<in> set col" and e: "Some h = d_importHash d" by (rule imageE)
  from e have e': "d_importHash d = Some h" by (rule sym)
  from c h have "d \<in> set (filter (\<lambda>d. case d_importHash d of None \<Rightarrow> False | Some h \<Rightarrow> h \<in> set chunk) col)"
    by (simp add: e')
  then show ?l using e by (rule image_eqI [rotated])
qed

lemma existLoop_eq:
  "existLoop st userId hs i ex =
     Inr (ex \<union> (set (drop i hs) \<inter> storedHashes st userId),
          st\<lparr>queries := queries st + (length hs - i + 29) div 30\<rparr>)"
proof (induction st userId hs i ex rule: existLoop.induct)
  case (1 st userId hs i ex)
  show ?case
  proof (cases "i < length hs")
    case False
    then show ?thesis by simp
  next
    case True
    let ?chunk = "jsSlice i (i + 30) hs"
    let ?snap = "filter (\<lambda>d. case d_importHash d of None \<Rightarrow> False | Some h \<Rightarrow> h \<in> set ?chunk)
                  (ledgerCol st userId)"
    let ?st' = "st\<lparr>queries := Suc (queries st)\<rparr>"
    have ch: "?chunk \<noteq> [] \<and> length ?chunk \<le> 30" using slice_chunk [OF True, of 30] by simp
    then have g: "getDocsIn st userId ?chunk = Inr (?snap, ?st')"
      by (simp add: getDocsIn_def)
    have ih: "existLoop ?st' userId hs (i + 30) (addHashes ?snap ex) =
       Inr (addHashes ?snap ex \<union> (set (drop (i + 30) hs) \<inter> storedHashes ?st' userId),
          ?st'\<lparr>queries := queries ?st' + (length hs - (i + 30) + 29) div 30\<rparr>)"
      using "1.IH" [OF True g refl] .
    have s0: "Some h \<in> d_importHash ` set ?snap \<longleftrightarrow>
        h \<in> set ?chunk \<and> Some h \<in> d_importHash ` set (ledgerCol st userId)" for h
      by (rule in_snapshot)
    have s1: "addHashes ?snap ex = ex \<union> (set ?chunk \<inter> storedHashes st userId)"
      unfolding addHashes_eq storedHashes_def s0 by blast
    have s2: "storedHashes ?st' userId = storedHashes st userId"
      by (simp add: storedHashes_def)
    have s3: "addHashes ?snap ex \<union> (set (drop (i + 30) hs) \<inter> storedHashes ?st' userId)
        = ex \<union> (set (drop i hs) \<inter> storedHashes st userId)"
      unfolding s1 s2 set_drop_chunk [of i hs 30] by blast
    have a: "Suc (queries st) + (length hs - (i + 30) + 29) div 30
        = queries st + (length hs - i + 29) div 30"
      using True by (cases "i + 30 \<le> length hs") auto
    show ?thesis
      using True g ih s3 a by (simp del: existLoop.simps add: existLoop.simps [of st])
  qed
qed

lemma written_chunk: "written clock u a (map (mkEntry u a (clock k)) ts) ts"
  unfolding written_def by (induction ts) auto

lemma written_append:
  "written clock u a ds ts \<Longrightarrow> written clock u a ds' ts' \<Longrightarrow> written clock u a (ds @ ds') (ts @ ts')"
  unfolding written_def by (rule list_all2_appendI)

lemma written_hashes:
  "written clock u a ds ts \<Longrightarrow> map d_importHash ds = map (\<lambda>t. Some (importHash t)) ts"
  unfolding written_def by (induction ds ts rule: list_all2_induct) (auto simp: mkEntry_def)

lemma written_length: "written clock u a ds ts \<Longrightarrow> length ds = length ts"
  unfolding written_def by (rule list_all2_lengthD)

lemma drop_chunk: "jsSlice i (i + n) xs @ drop (i + n) xs = drop i xs"
proof -
  have "take n (drop i xs) @ drop n (drop i xs) = drop i xs"
    by (rule append_take_drop_id)
  then show ?thesis by (simp add: jsSlice_def add.commute)
qed

lemma writeLoop_eq:
  "\<exists>ds. writeLoop clock st userId accountId xs i =
          Inr (st\<lparr>ledgerCol := (ledgerCol st)(userId := ledgerCol st userId @ ds),
                 commits := commits st + (length xs - i + 499) div 500\<rparr>)
      \<and> written clock userId accountId ds (drop i xs)"
proof (induction clock st userId accountId xs i rule: writeLoop.induct)
  case (1 clock st userId accountId xs i)
  show ?case
  proof (cases "i < length xs")
    case False
    then have "written clock userId accountId [] (drop i xs)" by (simp add: written_def)
    with False show ?thesis by (intro exI [of _ "[]"]) simp
  next
    case True
    let ?chunk = "jsSlice i (i + 500) xs"
    let ?b = "map (mkEntry userId accountId (clock i)) ?chunk"
    let ?st' = "st\<lparr>ledgerCol := (ledgerCol st)(userId := ledgerCol st userId @ ?b),
                   commits := Suc (commits st)\<rparr>"
    have "length ?b \<le> 500" using slice_chunk [OF True, of 500] by simp
    then have c: "commitBatch st userId ?b = Inr ?st'"
      by (simp add: commitBatch_def)
    from "1.IH" [OF True c] obtain ds where
      w: "writeLoop clock ?st' userId accountId xs (i + 500) =
          Inr (?st'\<lparr>ledgerCol := (ledgerCol ?st')(userId := ledgerCol ?st' userId @ ds),
                 commits := commits ?st' + (length xs - (i + 500) + 499) div 500\<rparr>)"
      and r: "written clock userId accountId ds (drop (i + 500) xs)"
      by blast
    have a: "Suc (commits st) + (length xs - (i + 500) + 499) div 500
        = commits st + (length xs - i + 499) div 500"
      using True by (cases "i + 500 \<le> length xs") auto
    have "written clock userId accountId (?b @ ds) (?chunk @ drop (i + 500) xs)"
      using written_chunk r by (rule written_append)
    then have r': "written clock userId accountId (?b @ ds) (drop i xs)"
      by (simp only: drop_chunk)
    have "writeLoop clock st userId accountId xs i =
          Inr (st\<lparr>ledgerCol := (ledgerCol st)(userId := ledgerCol st userId @ (?b @ ds)),
                 commits := commits st + (length xs - i + 499) div 500\<rparr>)"
      using True c w a by (simp del: writeLoop.simps add: writeLoop.simps [of clock st])
    with r' show ?thesis by blast
  qed
qed

lemma importLedgerEntries_eq:
  fixes st :: "'d firestore"
  defines "toImport txs u s \<equiv> filter (\<lambda>t. importHash t \<notin> storedHashes s u) txs"
  shows
  "\<exists>ds. importLedgerEntries clock st userId accountId txs =
          Inr (\<lparr>imported = length (toImport txs userId st),
                skipped = length txs - length (toImport txs userId st)\<rparr>,
               st\<lparr>ledgerCol := (ledgerCol st)(userId := ledgerCol st userId @ ds),
                  queries := queries st + (length txs + 29) div 30,
                  commits := commits st + (length (toImport txs userId st) + 499) div 500\<rparr>)
      \<and> written clock userId accountId ds (toImport txs userId st)"
proof (cases "txs = []")
  case True
  have "written clock userId accountId [] []" by (simp add: written_def)
  with True show ?thesis
    by (intro exI [of _ "[]"]) (simp add: importLedgerEntries_def toImport_def)
next
  case False
  let ?st1 = "st\<lparr>queries := queries st + (length txs + 29) div 30\<rparr>"
  let ?ex = "importHash ` set txs \<inter> storedHashes st userId"
  have e: "existLoop st userId (map importHash txs) 0 {} = Inr (?ex, ?st1)"
    using existLoop_eq [of st userId "map importHash txs" 0 "{}"] by simp
  have f: "filter (\<lambda>t. importHash t \<notin> ?ex) txs = toImport txs userId st"
    unfolding toImport_def by (rule filter_cong) auto
  from writeLoop_eq [of clock ?st1 userId accountId "toImport txs userId st" 0]
  obtain ds where
    w: "writeLoop clock ?st1 userId accountId (toImport txs userId st) 0 =
          Inr (?st1\<lparr>ledgerCol := (ledgerCol ?st1)(userId := ledgerCol ?st1 userId @ ds),
                 commits := commits ?st1 + (length (toImport txs userId st) - 0 + 499) div 500\<rparr>)"
    and r: "written clock userId accountId ds (drop 0 (toImport txs userId st))"
    by blast
  from r have r': "written clock userId accountId ds (toImport txs userId st)" by simp
  have "importLedgerEntries clock st userId accountId txs =
          Inr (\<lparr>imported = length (toImport txs userId st),
                skipped = length txs - length (toImport txs userId st)\<rparr>,
               st\<lparr>ledgerCol := (ledgerCol st)(userId := ledgerCol st userId @ ds),
                  queries := queries st + (length txs + 29) div 30,
                  commits := commits st + (length (toImport txs userId st) + 499) div 500\<rparr>)"
    using False
    by (simp only: importLedgerEntries_def Let_def length_0_conv if_False e f w
          sum.case prod.case) simp_all
  with r' show ?thesis by blast
qed

text \<open>
  C9. Called with an empty transaction list, \<open>importLedgerEntries\<close> returns
  \<open>{imported: 0, skipped: 0}\<close> at once: the store it hands back is the store it was given,
  with the same documents and the same numbers of existence queries and write batches.
\<close>

theorem importLedgerEntries_empty:
  "importLedgerEntries clock st userId accountId [] = Inr (\<lparr>imported = 0, skipped = 0\<rparr>, st)"
  by (simp add: importLedgerEntries_def)

text \<open>
  C1, as the code has it. The existence check compares every candidate with the store as it
  was before the call, and candidates are never compared with each other: the import writes
  one document for each candidate whose fingerprint the store did not hold, in order, so a
  fingerprint \<open>h\<close> that the store did not hold is written as many times as it occurs in the
  list.
\<close>

theorem importLedgerEntries_no_dedup_within_list:
  "\<exists>ds st'. importLedgerEntries clock st userId accountId txs =
              Inr (\<lparr>imported = length ds, skipped = length txs - length ds\<rparr>, st')
     \<and> ledgerCol st' userId = ledgerCol st userId @ ds
     \<and> map d_importHash ds =
         map (\<lambda>t. Some (importHash t)) (filter (\<lambda>t. importHash t \<notin> storedHashes st userId) txs)
     \<and> (h \<notin> storedHashes st userId \<longrightarrow>
          length (filter (\<lambda>d. d_importHash d = Some h) ds) =
          length (filter (\<lambda>t. importHash t = h) txs))"
proof -
  let ?new = "filter (\<lambda>t. importHash t \<notin> storedHashes st userId) txs"
  from importLedgerEntries_eq [of clock st userId accountId txs]
  obtain ds where
    r: "importLedgerEntries clock st userId accountId txs =
          Inr (\<lparr>imported = length ?new, skipped = length txs - length ?new\<rparr>,
               st\<lparr>ledgerCol := (ledgerCol st)(userId := ledgerCol st userId @ ds),
                  queries := queries st + (length txs + 29) div 30,
                  commits := commits st + (length ?new + 499) div 500\<rparr>)"
    and w: "written clock userId accountId ds ?new"
    by blast
  have l: "length ds = length ?new" using w by (rule written_length)
  have m: "map d_importHash ds = map (\<lambda>t. Some (importHash t)) ?new"
    using w by (rule written_hashes)
  have c: "length (filter (\<lambda>d. d_importHash d = Some h) ds) =
           length (filter (\<lambda>t. importHash t = h) txs)" if "h \<notin> storedHashes st userId"
  proof -
    have "length (filter (\<lambda>d. d_importHash d = Some h) ds) =
          length (filter (\<lambda>x. x = Some h) (map d_importHash ds))"
      by (simp add: filter_map comp_def)
    also have "\<dots> = length (filter (\<lambda>t. importHash t = h) ?new)"
      unfolding m by (simp add: filter_map comp_def)
    also have "filter (\<lambda>t. importHash t = h) ?new = filter (\<lambda>t. importHash t = h) txs"
      using that by (auto intro: filter_cong)
    finally show ?thesis .
  qed
  let ?st' = "st\<lparr>ledgerCol := (ledgerCol st)(userId := ledgerCol st userId @ ds),
                  queries := queries st + (length txs + 29) div 30,
                  commits := commits st + (length ?new + 499) div 500\<rparr>"
  have col: "ledgerCol ?st' userId = ledgerCol st userId @ ds" by simp
  have r': "importLedgerEntries clock st userId accountId txs =
              Inr (\<lparr>imported = length ds, skipped = length txs - length ds\<rparr>, ?st')"
    using r by (simp only: l)
  have c': "h \<notin> storedHashes st userId \<longrightarrow>
          length (filter (\<lambda>d. d_importHash d = Some h) ds) =
          length (filter (\<lambda>t. importHash t = h) txs)"
    using c by blast
  show ?thesis
    by (intro exI [of _ ds] exI [of _ ?st'] conjI) (rule r' col m c')+
qed

theorem importLedgerEntries_no_dedup_within_list_witness:
  "importHash cafe \<notin> storedHashes emptyStore (js ''u1'')
   \<and> (\<exists>ds st'. importLedgerEntries (\<lambda>i. 0) emptyStore (js ''u1'') (js ''acc'') [cafe, cafe2] =
              Inr (\<lparr>imported = length ds, skipped = 2 - length ds\<rparr>, st')
         \<and> ledgerCol st' (js ''u1'') = ds
         \<and> length (filter (\<lambda>d. d_importHash d = Some (importHash cafe)) ds) = 2)"
proof -
  have fresh: "importHash cafe \<notin> storedHashes emptyStore (js ''u1'')"
    by (simp add: storedHashes_def emptyStore_def)
  have two: "length (filter (\<lambda>t. importHash t = importHash cafe) [cafe, cafe2]) = 2"
    by (simp add: cafe_def cafe2_def)
  from importLedgerEntries_no_dedup_within_list
         [of "\<lambda>i. 0" emptyStore "js ''u1''" "js ''acc''" "[cafe, cafe2]" "importHash cafe"]
  obtain ds st' where
    "importLedgerEntries (\<lambda>i. 0) emptyStore (js ''u1'') (js ''acc'') [cafe, cafe2] =
              Inr (\<lparr>imported = length ds, skipped = length [cafe, cafe2] - length ds\<rparr>, st')"
    "ledgerCol st' (js ''u1'') = ledgerCol emptyStore (js ''u1'') @ ds"
    "importHash cafe \<notin> storedHashes emptyStore (js ''u1'') \<longrightarrow>
          length (filter (\<lambda>d. d_importHash d = Some (importHash cafe)) ds) =
          length (filter (\<lambda>t. importHash t = importHash cafe) [cafe, cafe2])"
    by blast
  with fresh two show ?thesis
    by (intro conjI exI [of _ ds] exI [of _ st']) (simp_all add: emptyStore_def)
qed

text \<open>
  The claim as written fails: two rows with one fingerprint, imported into an empty store,
  are both written.
\<close>

theorem importLedgerEntries_duplicates_counterexample:
  "cafe \<noteq> cafe2 \<and> importHash cafe = importHash cafe2
   \<and> importHash cafe \<notin> storedHashes emptyStore (js ''u1'')
   \<and> importLedgerEntries (\<lambda>i. 0) emptyStore (js ''u1'') (js ''acc'') [cafe, cafe2] =
     Inr (\<lparr>imported = 2, skipped = 0\<rparr>,
          \<lparr>ledgerCol = (\<lambda>u. [])(js ''u1'' := [mkEntry (js ''u1'') (js ''acc'') 0 cafe,
                                                mkEntry (js ''u1'') (js ''acc'') 0 cafe2]),
           queries = 1, commits = 1\<rparr>)
   \<and> map d_importHash [mkEntry (js ''u1'') (js ''acc'') 0 cafe,
                         mkEntry (js ''u1'') (js ''acc'') 0 cafe2]
       = [Some (js ''d6bf37450ceea8ab''), Some (js ''d6bf37450ceea8ab'')]"
  by (simp add: importLedgerEntries_def emptyStore_def getDocsIn_def commitBatch_def jsSlice_def
        addHashes_def cafe_def cafe2_def storedHashes_def mkEntry_def)

text \<open>
  C2. For transactions whose fingerprints are not in the store, a first import returns
  \<open>{imported: N, skipped: 0}\<close>; a second import of the same list into the resulting store
  returns \<open>{imported: 0, skipped: N}\<close> and writes nothing, whatever the clock. Parsed
  transactions carry fingerprints made by \<open>computeImportHash\<close>, which are 16 characters long
  and so not empty; that the fingerprints differ from each other is not needed.
\<close>

theorem importLedgerEntries_idempotent:
  assumes fresh: "\<forall>t \<in> set txs. Some (importHash t) \<notin> d_importHash ` set (ledgerCol st userId)"
    and nonempty: "\<forall>t \<in> set txs. importHash t \<noteq> []"
  shows "\<exists>st1 st2.
           importLedgerEntries clock st userId accountId txs =
             Inr (\<lparr>imported = length txs, skipped = 0\<rparr>, st1)
         \<and> importLedgerEntries clock' st1 userId accountId txs =
             Inr (\<lparr>imported = 0, skipped = length txs\<rparr>, st2)
         \<and> ledgerCol st2 = ledgerCol st1 \<and> commits st2 = commits st1"
proof -
  let ?new = "filter (\<lambda>t. importHash t \<notin> storedHashes st userId) txs"
  have n: "?new = txs"
    using fresh by (auto simp: storedHashes_def)
  from importLedgerEntries_eq [of clock st userId accountId txs]
  obtain ds where
    r: "importLedgerEntries clock st userId accountId txs =
          Inr (\<lparr>imported = length txs, skipped = length txs - length txs\<rparr>,
               st\<lparr>ledgerCol := (ledgerCol st)(userId := ledgerCol st userId @ ds),
                  queries := queries st + (length txs + 29) div 30,
                  commits := commits st + (length txs + 499) div 500\<rparr>)"
    and w: "written clock userId accountId ds txs"
    unfolding n by blast
  let ?st1 = "st\<lparr>ledgerCol := (ledgerCol st)(userId := ledgerCol st userId @ ds),
                  queries := queries st + (length txs + 29) div 30,
                  commits := commits st + (length txs + 499) div 500\<rparr>"
  have m: "map d_importHash ds = map (\<lambda>t. Some (importHash t)) txs"
    using w by (rule written_hashes)
  have "Some (importHash t) \<in> d_importHash ` set ds" if "t \<in> set txs" for t
  proof -
    have "Some (importHash t) \<in> set (map (\<lambda>t. Some (importHash t)) txs)"
      using that by auto
    then have "Some (importHash t) \<in> set (map d_importHash ds)" by (simp only: m)
    then show ?thesis by simp
  qed
  then have s: "filter (\<lambda>t. importHash t \<notin> storedHashes ?st1 userId) txs = []"
    using nonempty by (auto simp: storedHashes_def filter_empty_conv)
  from importLedgerEntries_eq [of clock' ?st1 userId accountId txs]
  obtain ds' where
    r2: "importLedgerEntries clock' ?st1 userId accountId txs =
          Inr (\<lparr>imported = length ([] :: 'a ParsedTransaction list),
                skipped = length txs - length ([] :: 'a ParsedTransaction list)\<rparr>,
               ?st1\<lparr>ledgerCol := (ledgerCol ?st1)(userId := ledgerCol ?st1 userId @ ds'),
                  queries := queries ?st1 + (length txs + 29) div 30,
                  commits := commits ?st1 + (length ([] :: 'a ParsedTransaction list) + 499) div 500\<rparr>)"
    and w2: "written clock' userId accountId ds' ([] :: 'a ParsedTransaction list)"
    unfolding s by blast
  from w2 have d: "ds' = []" by (simp add: written_def)
  let ?st2 = "?st1\<lparr>queries := queries ?st1 + (length txs + 29) div 30\<rparr>"
  have second: "importLedgerEntries clock' ?st1 userId accountId txs =
             Inr (\<lparr>imported = 0, skipped = length txs\<rparr>, ?st2)"
    using r2 d by simp
  have first: "importLedgerEntries clock st userId accountId txs =
             Inr (\<lparr>imported = length txs, skipped = 0\<rparr>, ?st1)"
    using r by simp
  have same: "ledgerCol ?st2 = ledgerCol ?st1" "commits ?st2 = commits ?st1" by simp_all
  show ?thesis
    by (intro exI [of _ ?st1] exI [of _ ?st2] conjI) (rule first second same)+
qed

theorem importLedgerEntries_idempotent_witness:
  "Some (importHash cafe) \<notin> d_importHash ` set (ledgerCol manualStore (js ''u1''))
   \<and> Some (importHash almoco) \<notin> d_importHash ` set (ledgerCol manualStore (js ''u1''))
   \<and> importHash cafe \<noteq> [] \<and> importHash almoco \<noteq> []
   \<and> (\<exists>st1 st2.
           importLedgerEntries (\<lambda>i. 0) manualStore (js ''u1'') (js ''acc'') [cafe, almoco] =
             Inr (\<lparr>imported = 2, skipped = 0\<rparr>, st1)
         \<and> importLedgerEntries (\<lambda>i. 1) st1 (js ''u1'') (js ''acc'') [cafe, almoco] =
             Inr (\<lparr>imported = 0, skipped = 2\<rparr>, st2)
         \<and> ledgerCol st2 = ledgerCol st1 \<and> commits st2 = commits st1)"
proof -
  have fresh: "\<forall>t \<in> set [cafe, almoco].
       Some (importHash t) \<notin> d_importHash ` set (ledgerCol manualStore (js ''u1''))"
    by (simp add: manualStore_def)
  have nonempty: "\<forall>t \<in> set [cafe, almoco]. importHash t \<noteq> []"
    by (simp add: cafe_def almoco_def js_def)
  have len: "length [cafe, almoco] = 2" by simp
  have "\<exists>st1 st2.
           importLedgerEntries (\<lambda>i. 0) manualStore (js ''u1'') (js ''acc'') [cafe, almoco] =
             Inr (\<lparr>imported = length [cafe, almoco], skipped = 0\<rparr>, st1)
         \<and> importLedgerEntries (\<lambda>i. 1) st1 (js ''u1'') (js ''acc'') [cafe, almoco] =
             Inr (\<lparr>imported = 0, skipped = length [cafe, almoco]\<rparr>, st2)
         \<and> ledgerCol st2 = ledgerCol st1 \<and> commits st2 = commits st1"
    by (rule importLedgerEntries_idempotent [OF fresh nonempty])
  then have "\<exists>st1 st2.
           importLedgerEntries (\<lambda>i. 0) manualStore (js ''u1'') (js ''acc'') [cafe, almoco] =
             Inr (\<lparr>imported = 2, skipped = 0\<rparr>, st1)
         \<and> importLedgerEntries (\<lambda>i. 1) st1 (js ''u1'') (js ''acc'') [cafe, almoco] =
             Inr (\<lparr>imported = 0, skipped = 2\<rparr>, st2)
         \<and> ledgerCol st2 = ledgerCol st1 \<and> commits st2 = commits st1"
    by (simp only: len)
  with fresh nonempty show ?thesis by simp
qed

end
